theory Spec2Isabelle
  imports Main "HOL-Library.Multiset"
begin

section \<open>Data model (types.ts)\<close>

datatype Suit = Hearts | Diamonds | Clubs | Spades

datatype Rank = RA | R2 | R3 | R4 | R5 | R6 | R7 | R8 | R9 | R10 | RJ | RQ | RK

text \<open>The field \<open>id\<close> of the interface \<open>Card\<close> is called \<open>card_id\<close> here, since \<open>id\<close> is
  the identity function of HOL; a parameter \<open>card\<close> is written \<open>card'\<close>, since \<open>card\<close> is the
  cardinality of a set.\<close>

record Card =
  card_id :: string
  suit :: Suit
  rank :: Rank

datatype GameStatus = Dealing | Playing | SuitSelection | GameOver

datatype Turn = Player | Ai

record GameState =
  deck :: "Card list"
  playerHand :: "Card list"
  aiHand :: "Card list"
  discardPile :: "Card list"
  currentTurn :: Turn
  status :: GameStatus
  winner :: "Turn option"
  pendingSuitChange :: bool
  currentSuit :: "Suit option"

text \<open>Reading a property of \<open>undefined\<close> throws a TypeError in JavaScript; it is the only
  failure the engine can run into.\<close>

datatype error = TypeError

section \<open>constants.ts\<close>

text \<open>The module \<open>./constants\<close> that App.tsx imports \<open>createDeck\<close>, \<open>shuffle\<close>, \<open>isValidMove\<close>
  and \<open>SUITS\<close> from is not among the sources. \<open>shuffle\<close> is random: its result is a parameter
  of \<open>initGame\<close> below.\<close>

definition SUITS :: "Suit list" where
  "SUITS = [Hearts, Diamonds, Clubs, Spades]"

definition RANKS :: "Rank list" where
  "RANKS = [RA, R2, R3, R4, R5, R6, R7, R8, R9, R10, RJ, RQ, RK]"

fun suitName :: "Suit \<Rightarrow> string" where
  "suitName Hearts = ''hearts''"
| "suitName Diamonds = ''diamonds''"
| "suitName Clubs = ''clubs''"
| "suitName Spades = ''spades''"

fun rankName :: "Rank \<Rightarrow> string" where
  "rankName RA = ''A''"
| "rankName R2 = ''2''"
| "rankName R3 = ''3''"
| "rankName R4 = ''4''"
| "rankName R5 = ''5''"
| "rankName R6 = ''6''"
| "rankName R7 = ''7''"
| "rankName R8 = ''8''"
| "rankName R9 = ''9''"
| "rankName R10 = ''10''"
| "rankName RJ = ''J''"
| "rankName RQ = ''Q''"
| "rankName RK = ''K''"

definition mkCard :: "Suit \<Rightarrow> Rank \<Rightarrow> Card" where
  "mkCard s r = \<lparr>card_id = rankName r @ ''-'' @ suitName s, suit = s, rank = r\<rparr>"

text \<open>Modelled from the spec: \<open>createDeck\<close> (constants.ts, absent) "produces exactly 52 Cards,
  one per (suit, rank) pair, each with a distinct identity". The spec fixes neither the order nor
  the text of an identity; the model lists the suits in the order of \<open>SUITS\<close>, the ranks inside a
  suit from A to K, and names a card by its rank and suit. Only the distinctness of the
  identities is used below.\<close>

definition createDeck :: "Card list" where
  "createDeck = concat (map (\<lambda>s. map (mkCard s) RANKS) SUITS)"

text \<open>Modelled from the spec: \<open>isValidMove\<close> (constants.ts, absent). "If suitOverride is
  non-null, the move is legal iff card.suit == suitOverride, OR card.rank == '8' [...]. Else the
  move is legal iff card.rank == '8', OR card.suit == topCard.suit, OR card.rank == topCard.rank.
  Precedence: rank-8 wildness is checked before suit/rank matching". The callers pass
  \<open>discardPile[discardPile.length - 1]\<close>, which is \<open>undefined\<close> on an empty pile (\<open>None\<close> here);
  the predicate reads the top card only where neither the rank 8 nor an override has decided,
  and reading a field of \<open>undefined\<close> is a TypeError.\<close>

definition isValidMove :: "Card \<Rightarrow> Card option \<Rightarrow> Suit option \<Rightarrow> error + bool" where
  "isValidMove card' topCard suitOverride =
     (if rank card' = R8 then Inr True
      else (case suitOverride of
              Some s \<Rightarrow> Inr (suit card' = s)
            | None \<Rightarrow>
                (case topCard of
                   None \<Rightarrow> Inl TypeError
                 | Some t \<Rightarrow> Inr (suit card' = suit t \<or> rank card' = rank t))))"

section \<open>App.tsx: the session\<close>

text \<open>The state \<open>useState\<close> starts from.\<close>

definition initialState :: GameState where
  "initialState =
     \<lparr>deck = [], playerHand = [], aiHand = [], discardPile = [], currentTurn = Player,
      status = Dealing, winner = None, pendingSuitChange = False, currentSuit = None\<rparr>"

text \<open>The loop \<open>while (remainingDeck[firstDiscardIndex].rank === '8') firstDiscardIndex++\<close>
  of \<open>initGame\<close>, started at index \<open>i\<close>. Past the end \<open>remainingDeck[i]\<close> is \<open>undefined\<close> and
  reading its rank throws.\<close>

function firstDiscardIndex :: "Card list \<Rightarrow> nat \<Rightarrow> error + nat" where
  "firstDiscardIndex remainingDeck i =
     (if i < length remainingDeck
      then (if rank (remainingDeck ! i) = R8 then firstDiscardIndex remainingDeck (i + 1)
            else Inr i)
      else Inl TypeError)"
  by pat_completeness auto
termination
  by (relation "measure (\<lambda>(remainingDeck, i). length remainingDeck - i)") auto

declare firstDiscardIndex.simps [simp del]

text \<open>\<open>initGame\<close>, with the shuffled deck \<open>shuffle(createDeck())\<close> as its argument.
  \<open>slice(0, 8)\<close>, \<open>slice(8, 16)\<close> and \<open>slice(16)\<close> clamp to the length, as \<open>take\<close> and \<open>drop\<close>
  do; \<open>splice(i, 1)\<close> takes the card at \<open>i\<close> out of the remainder and returns it.\<close>

definition initGame :: "Card list \<Rightarrow> error + GameState" where
  "initGame fullDeck =
     (let remainingDeck = drop 16 fullDeck in
      case firstDiscardIndex remainingDeck 0 of
        Inl e \<Rightarrow> Inl e
      | Inr i \<Rightarrow>
          Inr \<lparr>deck = take i remainingDeck @ drop (i + 1) remainingDeck,
               playerHand = take 8 fullDeck,
               aiHand = take 8 (drop 8 fullDeck),
               discardPile = [remainingDeck ! i],
               currentTurn = Player,
               status = Playing,
               winner = None,
               pendingSuitChange = False,
               currentSuit = None\<rparr>)"

text \<open>\<open>const topCard = gameState.discardPile[gameState.discardPile.length - 1]\<close>.\<close>

definition topCard :: "GameState \<Rightarrow> Card option" where
  "topCard s = (if discardPile s = [] then None else Some (last (discardPile s)))"

subsection \<open>The player's handlers\<close>

definition handlePlayCard :: "GameState \<Rightarrow> Card \<Rightarrow> error + GameState" where
  "handlePlayCard s card' =
     (if currentTurn s \<noteq> Player \<or> status s \<noteq> Playing then Inr s
      else (case isValidMove card' (topCard s) (currentSuit s) of
              Inl e \<Rightarrow> Inl e
            | Inr False \<Rightarrow> Inr s
            | Inr True \<Rightarrow>
                (let newPlayerHand = filter (\<lambda>c. card_id c \<noteq> card_id card') (playerHand s);
                     newDiscardPile = discardPile s @ [card']
                 in if length newPlayerHand = 0
                    then Inr (s\<lparr>playerHand := newPlayerHand, discardPile := newDiscardPile,
                                status := GameOver, winner := Some Player\<rparr>)
                    else if rank card' = R8
                    then Inr (s\<lparr>playerHand := newPlayerHand, discardPile := newDiscardPile,
                                status := SuitSelection, pendingSuitChange := True\<rparr>)
                    else Inr (s\<lparr>playerHand := newPlayerHand, discardPile := newDiscardPile,
                                currentTurn := Ai, currentSuit := None\<rparr>))))"

text \<open>The callback \<open>prev => ({ ...prev, currentTurn: 'ai' })\<close> that \<open>handleDrawCard\<close> hands to
  \<open>setTimeout\<close> when the deck is empty. It runs 1000 ms after the call, on the session as it
  is then.\<close>

definition forfeitTurn :: "GameState \<Rightarrow> GameState" where
  "forfeitTurn prev = prev\<lparr>currentTurn := Ai\<rparr>"

text \<open>\<open>handleDrawCard\<close> returns the session it leaves and whether it has armed the timer of
  \<open>forfeitTurn\<close>. On an empty deck it writes no state: it sets the message, arms the timer and
  returns, so that until the timer fires it is still the player's turn.\<close>

definition handleDrawCard :: "GameState \<Rightarrow> GameState \<times> bool" where
  "handleDrawCard s =
     (if currentTurn s \<noteq> Player \<or> status s \<noteq> Playing then (s, False)
      else (case deck s of
              [] \<Rightarrow> (s, True)
            | drawnCard # remainingDeck \<Rightarrow>
                (s\<lparr>deck := remainingDeck, playerHand := playerHand s @ [drawnCard],
                   currentTurn := Ai\<rparr>, False)))"

definition handleSuitSelect :: "GameState \<Rightarrow> Suit \<Rightarrow> GameState" where
  "handleSuitSelect s suit' =
     s\<lparr>currentSuit := Some suit', status := Playing, pendingSuitChange := False,
       currentTurn := Ai\<rparr>"

subsection \<open>The AI's turn\<close>

text \<open>\<open>gameState.aiHand.filter(c => isValidMove(c, topCard, gameState.currentSuit))\<close>: the
  filter stops with the error of the first call that throws.\<close>

fun playable :: "Card list \<Rightarrow> Card option \<Rightarrow> Suit option \<Rightarrow> error + Card list" where
  "playable [] tc ov = Inr []"
| "playable (c # cs) tc ov =
     (case isValidMove c tc ov of
        Inl e \<Rightarrow> Inl e
      | Inr b \<Rightarrow>
          (case playable cs tc ov of
             Inl e \<Rightarrow> Inl e
           | Inr r \<Rightarrow> Inr (if b then c # r else r)))"

text \<open>The tally \<open>acc[c.suit] = (acc[c.suit] || 0) + 1\<close>, on an object whose keys stay in the
  order in which they were first written: an association list.\<close>

fun tally :: "(Suit \<times> nat) list \<Rightarrow> Suit \<Rightarrow> (Suit \<times> nat) list" where
  "tally [] x = [(x, 1)]"
| "tally ((k, n) # acc) x = (if k = x then (k, n + 1) # acc else (k, n) # tally acc x)"

definition suitCounts :: "Card list \<Rightarrow> (Suit \<times> nat) list" where
  "suitCounts hand = foldl tally [] (map suit hand)"

definition countOf :: "(Suit \<times> nat) list \<Rightarrow> Suit \<Rightarrow> nat" where
  "countOf counts k = (case map_of counts k of Some n \<Rightarrow> n | None \<Rightarrow> 0)"

text \<open>\<open>Object.keys(suitCounts).sort((a, b) => suitCounts[b] - suitCounts[a])[0] || 'hearts'\<close>.
  The sort of JavaScript is stable, and so is \<open>sort_key\<close>; descending counts are ascending
  negated counts.\<close>

definition bestSuit :: "Card list \<Rightarrow> Suit" where
  "bestSuit newAiHand =
     (let counts = suitCounts newAiHand in
      case sort_key (\<lambda>k. - int (countOf counts k)) (map fst counts) of
        [] \<Rightarrow> Hearts
      | k # _ \<Rightarrow> k)"

text \<open>\<open>const nonEight = playableCards.find(c => c.rank !== '8');
  const cardToPlay = nonEight || playableCards[0]\<close>, for a non-empty \<open>playableCards\<close>.\<close>

definition cardToPlay :: "Card \<Rightarrow> Card list \<Rightarrow> Card" where
  "cardToPlay first rest =
     (case find (\<lambda>c. rank c \<noteq> R8) (first # rest) of Some nonEight \<Rightarrow> nonEight | None \<Rightarrow> first)"

text \<open>The branch \<open>playableCards.length > 0\<close> of the AI's effect, from the chosen card on.\<close>

definition aiPlay :: "GameState \<Rightarrow> Card \<Rightarrow> GameState" where
  "aiPlay s c =
     (let newAiHand = filter (\<lambda>x. card_id x \<noteq> card_id c) (aiHand s);
          newDiscardPile = discardPile s @ [c]
      in if length newAiHand = 0
         then s\<lparr>aiHand := newAiHand, discardPile := newDiscardPile, status := GameOver,
                winner := Some Ai\<rparr>
         else if rank c = R8
         then s\<lparr>aiHand := newAiHand, discardPile := newDiscardPile,
                currentSuit := Some (bestSuit newAiHand), currentTurn := Player\<rparr>
         else s\<lparr>aiHand := newAiHand, discardPile := newDiscardPile, currentTurn := Player,
                currentSuit := None\<rparr>)"

text \<open>The branch "AI must draw".\<close>

definition aiDraw :: "GameState \<Rightarrow> GameState" where
  "aiDraw s =
     (case deck s of
        drawnCard # remainingDeck \<Rightarrow>
          s\<lparr>deck := remainingDeck, aiHand := aiHand s @ [drawnCard], currentTurn := Player\<rparr>
      | [] \<Rightarrow> s\<lparr>currentTurn := Player\<rparr>)"

text \<open>The effect "AI Logic", when its timer of 1500 ms fires. Outside the AI's turn the
  effect sets no timer and the state stays as it is.\<close>

definition aiTurn :: "GameState \<Rightarrow> error + GameState" where
  "aiTurn s =
     (if currentTurn s = Ai \<and> status s = Playing
      then (case playable (aiHand s) (topCard s) (currentSuit s) of
              Inl e \<Rightarrow> Inl e
            | Inr playableCards \<Rightarrow>
                (case playableCards of
                   first # rest \<Rightarrow> Inr (aiPlay s (cardToPlay first rest))
                 | [] \<Rightarrow> Inr (aiDraw s)))
      else Inr s)"

subsection \<open>Sessions\<close>

text \<open>What can happen to a session: a deal (at the start and on every reset), the three
  handlers of the player, the AI's timer, and the timer of a forfeited draw. A step does not
  record whether the timer of a forfeit is armed: \<open>ForfeitTimeout\<close> may follow any step, which
  allows every order in which the timer can fire and more.\<close>

datatype Action =
    InitGame "Card list"
  | PlayCard Card
  | DrawCard
  | SelectSuit Suit
  | AiTurn
  | ForfeitTimeout

fun step :: "GameState \<Rightarrow> Action \<Rightarrow> error + GameState" where
  "step s (InitGame fullDeck) = initGame fullDeck"
| "step s (PlayCard card') = handlePlayCard s card'"
| "step s DrawCard = Inr (fst (handleDrawCard s))"
| "step s (SelectSuit suit') = Inr (handleSuitSelect s suit')"
| "step s AiTurn = aiTurn s"
| "step s ForfeitTimeout = Inr (forfeitTurn s)"

fun run :: "GameState \<Rightarrow> Action list \<Rightarrow> error + GameState" where
  "run s [] = Inr s"
| "run s (a # as) = (case step s a of Inl e \<Rightarrow> Inl e | Inr s' \<Rightarrow> run s' as)"

text \<open>Invariant 1 of the spec: the four piles together are the 52 cards, each once.\<close>

definition allCards :: "GameState \<Rightarrow> Card list" where
  "allCards s = deck s @ playerHand s @ aiHand s @ discardPile s"

definition cardsInv :: "GameState \<Rightarrow> bool" where
  "cardsInv s = (mset (allCards s) = mset createDeck)"

text \<open>The number of cards of a suit in a hand.\<close>

definition suitCount :: "Card list \<Rightarrow> Suit \<Rightarrow> nat" where
  "suitCount hand x = length (filter (\<lambda>c. suit c = x) hand)"

section \<open>Example sessions\<close>

text \<open>Inputs for the examples below. \<open>exampleDeal\<close> is the deal of the unshuffled deck;
  \<open>exampleShuffle\<close> is a shuffle on which the player sheds seven hearts, the AI answers with
  three hearts, draws three times and then plays an eight, naming spades; \<open>exampleLastCard\<close>
  is the session at that point, \<open>exampleGameOver\<close> the one after the player's last card.
  The small sessions that follow hold a handful of cards each.\<close>

definition exampleDeal :: GameState where
  "exampleDeal =
     \<lparr>deck = drop 17 createDeck, playerHand = take 8 createDeck,
      aiHand = take 8 (drop 8 createDeck), discardPile = [mkCard Diamonds R4],
      currentTurn = Player, status = Playing, winner = None, pendingSuitChange = False,
      currentSuit = None\<rparr>"

definition exampleSuitPrompt :: GameState where
  "exampleSuitPrompt =
     exampleDeal\<lparr>playerHand := filter (\<lambda>c. card_id c \<noteq> ''8-hearts'') (take 8 createDeck),
                 discardPile := [mkCard Diamonds R4, mkCard Hearts R8],
                 status := SuitSelection, pendingSuitChange := True\<rparr>"

definition exampleSuitChosen :: GameState where
  "exampleSuitChosen =
     exampleSuitPrompt\<lparr>currentSuit := Some Hearts, status := Playing,
                       pendingSuitChange := False, currentTurn := Ai\<rparr>"

definition exampleShuffle :: "Card list" where
  "exampleShuffle =
     [mkCard Hearts RA, mkCard Hearts R2, mkCard Hearts R3, mkCard Hearts R4,
      mkCard Hearts R5, mkCard Hearts R6, mkCard Hearts R7, mkCard Spades RK,
      mkCard Hearts RJ, mkCard Hearts RQ, mkCard Hearts RK, mkCard Spades R9,
      mkCard Spades R10, mkCard Spades RJ, mkCard Spades RQ, mkCard Clubs R9,
      mkCard Hearts R10, mkCard Diamonds R9, mkCard Diamonds R10, mkCard Diamonds R8,
      mkCard Hearts R8, mkCard Hearts R9, mkCard Diamonds RA, mkCard Diamonds R2,
      mkCard Diamonds R3, mkCard Diamonds R4, mkCard Diamonds R5, mkCard Diamonds R6,
      mkCard Diamonds R7, mkCard Diamonds RJ, mkCard Diamonds RQ, mkCard Diamonds RK,
      mkCard Clubs RA, mkCard Clubs R2, mkCard Clubs R3, mkCard Clubs R4,
      mkCard Clubs R5, mkCard Clubs R6, mkCard Clubs R7, mkCard Clubs R8,
      mkCard Clubs R10, mkCard Clubs RJ, mkCard Clubs RQ, mkCard Clubs RK,
      mkCard Spades RA, mkCard Spades R2, mkCard Spades R3, mkCard Spades R4,
      mkCard Spades R5, mkCard Spades R6, mkCard Spades R7, mkCard Spades R8]"

definition exampleGame :: "Action list" where
  "exampleGame =
     [InitGame exampleShuffle,
      PlayCard (mkCard Hearts RA), AiTurn, PlayCard (mkCard Hearts R2), AiTurn,
      PlayCard (mkCard Hearts R3), AiTurn, PlayCard (mkCard Hearts R4), AiTurn,
      PlayCard (mkCard Hearts R5), AiTurn, PlayCard (mkCard Hearts R6), AiTurn,
      PlayCard (mkCard Hearts R7), AiTurn]"

definition exampleRest :: "Card list" where
  "exampleRest =
     [mkCard Hearts R8, mkCard Hearts R9, mkCard Diamonds RA, mkCard Diamonds R2,
      mkCard Diamonds R3, mkCard Diamonds R4, mkCard Diamonds R5, mkCard Diamonds R6,
      mkCard Diamonds R7, mkCard Diamonds RJ, mkCard Diamonds RQ, mkCard Diamonds RK,
      mkCard Clubs RA, mkCard Clubs R2, mkCard Clubs R3, mkCard Clubs R4,
      mkCard Clubs R5, mkCard Clubs R6, mkCard Clubs R7, mkCard Clubs R8,
      mkCard Clubs R10, mkCard Clubs RJ, mkCard Clubs RQ, mkCard Clubs RK,
      mkCard Spades RA, mkCard Spades R2, mkCard Spades R3, mkCard Spades R4,
      mkCard Spades R5, mkCard Spades R6, mkCard Spades R7, mkCard Spades R8]"

definition exampleLastCard :: GameState where
  "exampleLastCard =
     \<lparr>deck = exampleRest,
      playerHand = [mkCard Spades RK],
      aiHand = [mkCard Spades R9, mkCard Spades R10, mkCard Spades RJ, mkCard Spades RQ,
                mkCard Clubs R9, mkCard Diamonds R9, mkCard Diamonds R10],
      discardPile =
        [mkCard Hearts R10, mkCard Hearts RA, mkCard Hearts RJ, mkCard Hearts R2,
         mkCard Hearts RQ, mkCard Hearts R3, mkCard Hearts RK, mkCard Hearts R4,
         mkCard Hearts R5, mkCard Hearts R6, mkCard Hearts R7, mkCard Diamonds R8],
      currentTurn = Player, status = Playing, winner = None, pendingSuitChange = False,
      currentSuit = Some Spades\<rparr>"

definition exampleGameOver :: GameState where
  "exampleGameOver =
     exampleLastCard\<lparr>playerHand := [],
                     discardPile := discardPile exampleLastCard @ [mkCard Spades RK],
                     status := GameOver, winner := Some Player\<rparr>"

definition exampleLastEight :: GameState where
  "exampleLastEight =
     \<lparr>deck = [mkCard Clubs R2], playerHand = [mkCard Hearts R8],
      aiHand = [mkCard Clubs RK, mkCard Clubs R3],
      discardPile = [mkCard Hearts R10, mkCard Spades R5],
      currentTurn = Player, status = Playing, winner = None, pendingSuitChange = False,
      currentSuit = None\<rparr>"

definition exampleAiLastCard :: GameState where
  "exampleAiLastCard =
     \<lparr>deck = [mkCard Clubs R2], playerHand = [mkCard Clubs RK, mkCard Clubs R3],
      aiHand = [mkCard Spades R8], discardPile = [mkCard Hearts R10, mkCard Hearts R5],
      currentTurn = Ai, status = Playing, winner = None, pendingSuitChange = False,
      currentSuit = None\<rparr>"

definition exampleOverride :: GameState where
  "exampleOverride =
     \<lparr>deck = [mkCard Diamonds R2], playerHand = [mkCard Spades RK, mkCard Clubs R3],
      aiHand = [mkCard Spades R4, mkCard Clubs R7],
      discardPile = [mkCard Hearts R10, mkCard Diamonds R8],
      currentTurn = Player, status = Playing, winner = None, pendingSuitChange = False,
      currentSuit = Some Spades\<rparr>"

definition exampleEmptyDeck :: GameState where
  "exampleEmptyDeck =
     \<lparr>deck = [], playerHand = [mkCard Clubs RK, mkCard Clubs R3],
      aiHand = [mkCard Spades R4, mkCard Clubs R7],
      discardPile = [mkCard Hearts R10, mkCard Hearts R5],
      currentTurn = Player, status = Playing, winner = None, pendingSuitChange = False,
      currentSuit = Some Diamonds\<rparr>"

definition exampleAiEight :: GameState where
  "exampleAiEight =
     \<lparr>deck = [mkCard Clubs R2], playerHand = [mkCard Spades RK],
      aiHand = [mkCard Clubs R9, mkCard Spades R9, mkCard Diamonds R8, mkCard Spades R10,
                mkCard Diamonds RJ],
      discardPile = [mkCard Hearts R10, mkCard Hearts R7],
      currentTurn = Ai, status = Playing, winner = None, pendingSuitChange = False,
      currentSuit = None\<rparr>"

definition exampleAiChoice :: GameState where
  "exampleAiChoice =
     \<lparr>deck = [mkCard Clubs R2], playerHand = [mkCard Spades RK],
      aiHand = [mkCard Clubs R9, mkCard Hearts R8, mkCard Spades R7, mkCard Hearts R3],
      discardPile = [mkCard Hearts R10, mkCard Hearts R7],
      currentTurn = Ai, status = Playing, winner = None, pendingSuitChange = False,
      currentSuit = None\<rparr>"

text \<open>A session of all 52 cards with an empty deck, the player to move and a club on top.\<close>

definition exampleDrawWindow :: GameState where
  "exampleDrawWindow =
     \<lparr>deck = [], playerHand = [mkCard Clubs RK, mkCard Clubs R3],
      aiHand = [mkCard Spades R4, mkCard Diamonds R7],
      discardPile =
        filter (\<lambda>c. card_id c \<notin> set [''K-clubs'', ''3-clubs'', ''4-spades'', ''7-diamonds'',
                                       ''5-clubs'']) createDeck
        @ [mkCard Clubs R5],
      currentTurn = Player, status = Playing, winner = None, pendingSuitChange = False,
      currentSuit = None\<rparr>"

section \<open>Facts about the deck and the deal\<close>

lemma length_createDeck: "length createDeck = 52"
  by (simp add: createDeck_def SUITS_def RANKS_def)

lemma distinct_ids_createDeck: "distinct (map card_id createDeck)"
  by (simp add: createDeck_def SUITS_def RANKS_def mkCard_def)

lemma eights_createDeck: "length (filter (\<lambda>c. rank c = R8) createDeck) = 4"
  by (simp add: createDeck_def SUITS_def RANKS_def mkCard_def)

text \<open>Filtering a card out by its identity removes that card and no other, where the identities
  are distinct.\<close>

lemma filter_id_mset:
  "distinct (map card_id xs) \<Longrightarrow> c \<in> set xs \<Longrightarrow>
   mset (filter (\<lambda>x. card_id x \<noteq> card_id c) xs) + {#c#} = mset xs"
proof (induction xs)
  case Nil
  then show ?case by simp
next
  case (Cons a xs)
  show ?case
  proof (cases "a = c")
    case True
    with Cons.prems have "\<forall>x\<in>set xs. card_id x \<noteq> card_id c" by (auto simp: image_iff)
    then have "filter (\<lambda>x. card_id x \<noteq> card_id c) xs = xs" by (simp add: filter_id_conv)
    with True show ?thesis by simp
  next
    case False
    with Cons.prems have "c \<in> set xs" and "card_id a \<noteq> card_id c" by (auto simp: image_iff)
    with Cons show ?thesis by simp
  qed
qed

text \<open>The loop of the deal returns the first index from \<open>i\<close> on whose card is not an eight, and
  it returns one when there is one.\<close>

lemma firstDiscardIndex_sound:
  "firstDiscardIndex r i = Inr k \<Longrightarrow>
   i \<le> k \<and> k < length r \<and> rank (r ! k) \<noteq> R8 \<and> (\<forall>j. i \<le> j \<and> j < k \<longrightarrow> rank (r ! j) = R8)"
proof (induction r i rule: firstDiscardIndex.induct)
  case (1 r i)
  show ?case
  proof (cases "i < length r \<and> rank (r ! i) = R8")
    case True
    with "1.prems" have "firstDiscardIndex r (i + 1) = Inr k"
      by (subst (asm) firstDiscardIndex.simps) simp
    with "1.IH" True have *: "i + 1 \<le> k \<and> k < length r \<and> rank (r ! k) \<noteq> R8 \<and>
        (\<forall>j. i + 1 \<le> j \<and> j < k \<longrightarrow> rank (r ! j) = R8)" by simp
    have "\<And>j. i \<le> j \<Longrightarrow> j < k \<Longrightarrow> rank (r ! j) = R8"
    proof -
      fix j assume "i \<le> j" "j < k"
      then show "rank (r ! j) = R8" using * True by (cases "j = i") auto
    qed
    with * show ?thesis by auto
  next
    case False
    with "1.prems" show ?thesis
      by (subst (asm) firstDiscardIndex.simps) (auto split: if_splits)
  qed
qed

lemma firstDiscardIndex_total:
  "i \<le> j \<Longrightarrow> j < length r \<Longrightarrow> rank (r ! j) \<noteq> R8 \<Longrightarrow> \<exists>k. firstDiscardIndex r i = Inr k"
proof (induction r i rule: firstDiscardIndex.induct)
  case (1 r i)
  show ?case
  proof (cases "rank (r ! i) = R8")
    case True
    with "1.prems" have "i + 1 \<le> j" by (cases "i = j") auto
    with "1.IH" "1.prems" True obtain k where "firstDiscardIndex r (i + 1) = Inr k" by auto
    with True "1.prems" show ?thesis by (subst firstDiscardIndex.simps) simp
  next
    case False
    with "1.prems" show ?thesis by (subst firstDiscardIndex.simps) simp
  qed
qed

lemma initGame_Inr:
  assumes "firstDiscardIndex (drop 16 fullDeck) 0 = Inr i"
  shows "initGame fullDeck =
     Inr \<lparr>deck = take i (drop 16 fullDeck) @ drop (i + 1) (drop 16 fullDeck),
          playerHand = take 8 fullDeck,
          aiHand = take 8 (drop 8 fullDeck),
          discardPile = [drop 16 fullDeck ! i],
          currentTurn = Player, status = Playing, winner = None,
          pendingSuitChange = False, currentSuit = None\<rparr>"
  unfolding initGame_def Let_def assms by simp

text \<open>Every shuffle of the deck has a non-eight among its last 36 cards, so the deal of a
  shuffled deck never runs off the end.\<close>

lemma shuffled_remainder_has_non_eight:
  assumes "mset fullDeck = mset createDeck"
  shows "\<exists>c \<in> set (drop 16 fullDeck). rank c \<noteq> R8"
proof (rule ccontr)
  assume "\<not> ?thesis"
  then have all8: "\<forall>c \<in> set (drop 16 fullDeck). rank c = R8" by blast
  have len: "length fullDeck = 52"
    using assms length_createDeck by (metis size_mset)
  have "length (filter (\<lambda>c. rank c = R8) fullDeck) = size (filter_mset (\<lambda>c. rank c = R8) (mset fullDeck))"
    by (metis mset_filter size_mset)
  also have "\<dots> = length (filter (\<lambda>c. rank c = R8) createDeck)"
    unfolding assms by (metis mset_filter size_mset)
  finally have four: "length (filter (\<lambda>c. rank c = R8) fullDeck) = 4"
    by (simp add: eights_createDeck)
  have "filter (\<lambda>c. rank c = R8) (drop 16 fullDeck) = drop 16 fullDeck"
    using all8 by (simp add: filter_id_conv)
  then have "length (filter (\<lambda>c. rank c = R8) (drop 16 fullDeck)) = 36"
    using len by simp
  moreover have "length (filter (\<lambda>c. rank c = R8) (drop 16 fullDeck))
      \<le> length (filter (\<lambda>c. rank c = R8) (take 16 fullDeck @ drop 16 fullDeck))"
    unfolding filter_append length_append by simp
  ultimately show False using four by simp
qed

lemma initGame_cardsInv:
  assumes "mset fullDeck = mset createDeck" and "initGame fullDeck = Inr s"
  shows "cardsInv s"
proof -
  define r where "r = drop 16 fullDeck"
  from assms(2) obtain i where i: "firstDiscardIndex r 0 = Inr i"
    by (auto simp: initGame_def Let_def r_def split: sum.splits)
  from firstDiscardIndex_sound [OF i] have b: "i < length r" by simp
  define x where "x = take i r @ drop (i + 1) r"
  define p where "p = take 8 fullDeck"
  define q where "q = take 8 (drop 8 fullDeck)"
  from initGame_Inr [OF i [unfolded r_def]] assms(2)
  have s: "allCards s = x @ p @ q @ [r ! i]"
    by (auto simp: allCards_def x_def p_def q_def r_def)
  have "r = take i r @ r ! i # drop (Suc i) r"
    by (rule id_take_nth_drop [OF b])
  then have "mset r = mset (take i r @ r ! i # drop (Suc i) r)" by simp
  then have xr: "mset r = mset x + {#r ! i#}" by (simp add: x_def)
  have "p @ q @ r = fullDeck"
    unfolding p_def q_def r_def
    by (metis append_take_drop_id drop_drop numeral_Bit0)
  then have f: "mset fullDeck = mset p + mset q + mset r" by (metis mset_append add.assoc)
  have "mset (allCards s) = mset fullDeck"
    unfolding s f xr by simp
  with assms(1) show ?thesis by (simp add: cardsInv_def)
qed

section \<open>Facts about the handlers\<close>

lemma cardsInv_distinct_ids:
  assumes "cardsInv s"
  shows "distinct (map card_id (allCards s))"
proof -
  from assms have "mset (map card_id (allCards s)) = mset (map card_id createDeck)"
    by (simp add: cardsInv_def)
  then show ?thesis
    using distinct_ids_createDeck by (metis mset_eq_imp_distinct_iff)
qed

lemma playable_subset: "playable cs tc ov = Inr ps \<Longrightarrow> set ps \<subseteq> set cs"
  by (induction cs arbitrary: ps) (auto split: sum.splits if_splits)

lemma playable_Some:
  "playable cs (Some t) ov = Inr (filter (\<lambda>c. isValidMove c (Some t) ov = Inr True) cs)"
  by (induction cs) (auto simp: isValidMove_def split: sum.splits option.splits)

lemma playable_pile:
  "discardPile s \<noteq> [] \<Longrightarrow>
   playable cs (topCard s) ov =
     Inr (filter (\<lambda>c. isValidMove c (topCard s) ov = Inr True) cs)"
  by (simp add: topCard_def playable_Some)

lemma cardToPlay_in: "cardToPlay f r \<in> set (f # r)"
proof (cases "find (\<lambda>c. rank c \<noteq> R8) (f # r)")
  case None
  then show ?thesis by (simp add: cardToPlay_def)
next
  case (Some n)
  then have "n \<in> set (f # r)" by (metis find_Some_iff nth_mem)
  with Some show ?thesis by (simp add: cardToPlay_def)
qed

lemma find_filter: "find P (filter Q xs) = find (\<lambda>x. Q x \<and> P x) xs"
  by (induction xs) auto

lemma find_first_of_filter:
  "find Q xs = (case filter Q xs of [] \<Rightarrow> None | y # _ \<Rightarrow> Some y)"
  by (induction xs) auto

lemma handlePlayCard_accepted:
  assumes "currentTurn s = Player" and "status s = Playing"
    and "isValidMove c (topCard s) (currentSuit s) = Inr True"
  shows "handlePlayCard s c =
     Inr (let newPlayerHand = filter (\<lambda>x. card_id x \<noteq> card_id c) (playerHand s);
              newDiscardPile = discardPile s @ [c]
          in if newPlayerHand = []
             then s\<lparr>playerHand := newPlayerHand, discardPile := newDiscardPile,
                    status := GameOver, winner := Some Player\<rparr>
             else if rank c = R8
             then s\<lparr>playerHand := newPlayerHand, discardPile := newDiscardPile,
                    status := SuitSelection, pendingSuitChange := True\<rparr>
             else s\<lparr>playerHand := newPlayerHand, discardPile := newDiscardPile,
                    currentTurn := Ai, currentSuit := None\<rparr>)"
  using assms by (simp add: handlePlayCard_def Let_def)

lemma aiTurn_plays:
  assumes "currentTurn s = Ai" and "status s = Playing"
    and "playable (aiHand s) (topCard s) (currentSuit s) = Inr (f # r)"
  shows "aiTurn s = Inr (aiPlay s (cardToPlay f r))"
  using assms by (simp add: aiTurn_def)

lemma aiTurn_draws:
  assumes "currentTurn s = Ai" and "status s = Playing"
    and "playable (aiHand s) (topCard s) (currentSuit s) = Inr []"
  shows "aiTurn s = Inr (aiDraw s)"
  using assms by (simp add: aiTurn_def)

lemma aiPlay_piles:
  "discardPile (aiPlay s c) = discardPile s @ [c]
   \<and> aiHand (aiPlay s c) = filter (\<lambda>x. card_id x \<noteq> card_id c) (aiHand s)
   \<and> deck (aiPlay s c) = deck s \<and> playerHand (aiPlay s c) = playerHand s"
  by (simp add: aiPlay_def Let_def)

lemma allCards_aiPlay:
  "allCards (aiPlay s c) =
     deck s @ playerHand s @ filter (\<lambda>x. card_id x \<noteq> card_id c) (aiHand s) @ discardPile s @ [c]"
  by (simp add: aiPlay_def allCards_def Let_def)

lemma aiPlay_cardsInv:
  assumes "cardsInv s" and "c \<in> set (aiHand s)"
  shows "cardsInv (aiPlay s c)"
proof -
  from cardsInv_distinct_ids [OF assms(1)] have "distinct (map card_id (aiHand s))"
    by (simp add: allCards_def)
  from filter_id_mset [OF this assms(2)]
  have "mset (allCards (aiPlay s c)) = mset (allCards s)"
    unfolding allCards_aiPlay by (simp add: allCards_def)
  with assms(1) show ?thesis by (simp add: cardsInv_def)
qed

lemma aiDraw_cardsInv: "cardsInv s \<Longrightarrow> cardsInv (aiDraw s)"
  by (cases "deck s") (simp_all add: aiDraw_def cardsInv_def allCards_def)

lemma aiTurn_cardsInv:
  assumes "cardsInv s" and "aiTurn s = Inr s'"
  shows "cardsInv s'"
proof (cases "currentTurn s = Ai \<and> status s = Playing")
  case False
  with assms show ?thesis by (auto simp: aiTurn_def)
next
  case True
  with assms(2) obtain ps where ps: "playable (aiHand s) (topCard s) (currentSuit s) = Inr ps"
    by (auto simp: aiTurn_def split: sum.splits)
  show ?thesis
  proof (cases ps)
    case Nil
    with True ps assms(2) have "s' = aiDraw s" by (simp add: aiTurn_def)
    with assms(1) show ?thesis by (simp add: aiDraw_cardsInv)
  next
    case (Cons f r)
    with True ps assms(2) have s': "s' = aiPlay s (cardToPlay f r)" by (simp add: aiTurn_def)
    from cardToPlay_in [of f r] Cons playable_subset [OF ps]
    have "cardToPlay f r \<in> set (aiHand s)" by auto
    with assms(1) s' show ?thesis by (simp add: aiPlay_cardsInv)
  qed
qed

lemma allCards_handlePlayCard:
  assumes "handlePlayCard s c = Inr s'"
  shows "s' = s \<or> allCards s' =
     deck s @ filter (\<lambda>x. card_id x \<noteq> card_id c) (playerHand s) @ aiHand s @ discardPile s @ [c]"
  using assms
  by (auto simp: handlePlayCard_def allCards_def Let_def split: if_splits sum.splits bool.splits)

lemma handlePlayCard_cardsInv:
  assumes "cardsInv s" and "c \<in> set (playerHand s)" and "handlePlayCard s c = Inr s'"
  shows "cardsInv s'"
proof -
  from cardsInv_distinct_ids [OF assms(1)] have "distinct (map card_id (playerHand s))"
    by (simp add: allCards_def)
  from filter_id_mset [OF this assms(2)]
  have "mset (deck s @ filter (\<lambda>x. card_id x \<noteq> card_id c) (playerHand s) @ aiHand s
      @ discardPile s @ [c]) = mset (allCards s)"
    by (simp add: allCards_def)
  with allCards_handlePlayCard [OF assms(3)] assms(1) show ?thesis
    by (auto simp: cardsInv_def)
qed

lemma handleDrawCard_cardsInv: "cardsInv s \<Longrightarrow> cardsInv (fst (handleDrawCard s))"
  by (cases "deck s") (simp_all add: handleDrawCard_def cardsInv_def allCards_def)

lemma handleSuitSelect_cardsInv: "cardsInv s \<Longrightarrow> cardsInv (handleSuitSelect s x)"
  by (simp add: handleSuitSelect_def cardsInv_def allCards_def)

lemma forfeitTurn_cardsInv: "cardsInv s \<Longrightarrow> cardsInv (forfeitTurn s)"
  by (simp add: forfeitTurn_def cardsInv_def allCards_def)

text \<open>With a card on the discard pile no handler fails.\<close>

lemma isValidMove_total: "\<exists>b. isValidMove c (Some t) ov = Inr b"
  by (auto simp: isValidMove_def split: option.splits)

lemma handlePlayCard_total:
  "discardPile s \<noteq> [] \<Longrightarrow> \<exists>s'. handlePlayCard s c = Inr s'"
  using isValidMove_total [of c "last (discardPile s)" "currentSuit s"]
  by (auto simp: handlePlayCard_def topCard_def Let_def split: bool.splits)

lemma aiTurn_total: "discardPile s \<noteq> [] \<Longrightarrow> \<exists>s'. aiTurn s = Inr s'"
  by (auto simp: aiTurn_def topCard_def playable_Some split: list.splits)

text \<open>The flag \<open>pendingSuitChange\<close> follows the status through every step.\<close>

lemma step_flag:
  assumes "pendingSuitChange s = (status s = SuitSelection)" and "step s a = Inr s'"
  shows "pendingSuitChange s' = (status s' = SuitSelection)"
proof (cases a)
  case (InitGame d)
  with assms(2) show ?thesis
    by (auto simp: initGame_def Let_def split: sum.splits)
next
  case (PlayCard c)
  with assms show ?thesis
    by (auto simp: handlePlayCard_def Let_def split: if_splits sum.splits bool.splits)
next
  case DrawCard
  with assms show ?thesis
    by (auto simp: handleDrawCard_def split: if_splits list.splits)
next
  case (SelectSuit x)
  with assms(2) show ?thesis by (auto simp: handleSuitSelect_def)
next
  case AiTurn
  with assms show ?thesis
    by (auto simp: aiTurn_def aiPlay_def aiDraw_def Let_def
        split: if_splits sum.splits list.splits)
next
  case ForfeitTimeout
  with assms show ?thesis by (auto simp: forfeitTurn_def)
qed

lemma run_flag:
  "pendingSuitChange s = (status s = SuitSelection) \<Longrightarrow> run s acts = Inr s' \<Longrightarrow>
   pendingSuitChange s' = (status s' = SuitSelection)"
proof (induction acts arbitrary: s)
  case Nil
  then show ?case by simp
next
  case (Cons a acts)
  from Cons.prems(2) obtain t where t: "step s a = Inr t" "run t acts = Inr s'"
    by (auto split: sum.splits)
  from step_flag [OF Cons.prems(1) t(1)] t(2) show ?case by (rule Cons.IH)
qed

lemma run_append:
  "run s (as @ bs) = (case run s as of Inl e \<Rightarrow> Inl e | Inr t \<Rightarrow> run t bs)"
  by (induction as arbitrary: s) (auto split: sum.splits)

text \<open>The status \<open>suit_selection\<close> is entered only by the player's accepted eight and left
  only by a choice of suit or a new deal; the AI's turn touches neither the flag nor that
  status.\<close>

lemma step_enters_suit_selection:
  assumes "step t a = Inr t'" and "status t \<noteq> SuitSelection" and "status t' = SuitSelection"
  shows "\<exists>c. a = PlayCard c \<and> rank c = R8 \<and> currentTurn t = Player \<and> status t = Playing"
proof (cases a)
  case (InitGame d)
  with assms show ?thesis by (auto simp: initGame_def Let_def split: sum.splits)
next
  case (PlayCard c)
  with assms show ?thesis
    by (auto simp: handlePlayCard_def Let_def split: if_splits sum.splits bool.splits)
next
  case DrawCard
  with assms show ?thesis by (auto simp: handleDrawCard_def split: if_splits list.splits)
next
  case (SelectSuit x)
  with assms show ?thesis by (auto simp: handleSuitSelect_def)
next
  case AiTurn
  with assms show ?thesis
    by (auto simp: aiTurn_def aiPlay_def aiDraw_def Let_def
        split: if_splits sum.splits list.splits)
next
  case ForfeitTimeout
  with assms show ?thesis by (auto simp: forfeitTurn_def)
qed

lemma step_leaves_suit_selection:
  assumes "step t a = Inr t'" and "status t = SuitSelection" and "status t' \<noteq> SuitSelection"
  shows "(\<exists>x. a = SelectSuit x) \<or> (\<exists>d. a = InitGame d)"
proof (cases a)
  case (PlayCard c)
  with assms show ?thesis by (auto simp: handlePlayCard_def)
next
  case DrawCard
  with assms show ?thesis by (auto simp: handleDrawCard_def)
next
  case AiTurn
  with assms show ?thesis by (auto simp: aiTurn_def)
next
  case ForfeitTimeout
  with assms show ?thesis by (auto simp: forfeitTurn_def)
qed auto

lemma aiTurn_flag:
  assumes "aiTurn t = Inr t'"
  shows "pendingSuitChange t' = pendingSuitChange t
    \<and> (status t' = SuitSelection) = (status t = SuitSelection)"
  using assms
  by (auto simp: aiTurn_def aiPlay_def aiDraw_def Let_def split: if_splits sum.splits list.splits)

subsection \<open>The AI's tally of suits\<close>

lemma countOf_tally: "countOf (tally acc x) k = countOf acc k + (if k = x then 1 else 0)"
  by (induction acc x rule: tally.induct) (auto simp: countOf_def)

lemma keys_tally: "fst ` set (tally acc x) = insert x (fst ` set acc)"
  by (induction acc x rule: tally.induct) auto

lemma countOf_foldl_tally:
  "countOf (foldl tally acc xs) k = countOf acc k + length (filter (\<lambda>x. x = k) xs)"
  by (induction xs arbitrary: acc) (auto simp: countOf_tally)

lemma keys_foldl_tally: "fst ` set (foldl tally acc xs) = fst ` set acc \<union> set xs"
  by (induction xs arbitrary: acc) (simp_all add: keys_tally)

lemma countOf_suitCounts: "countOf (suitCounts hand) k = suitCount hand k"
proof -
  have "countOf [] k = 0" by (simp add: countOf_def)
  then show ?thesis
    unfolding suitCounts_def countOf_foldl_tally suitCount_def
    by (simp add: filter_map comp_def)
qed

lemma keys_suitCounts: "fst ` set (suitCounts hand) = suit ` set hand"
  unfolding suitCounts_def keys_foldl_tally by simp

lemma suitCount_zero: "x \<notin> suit ` set hand \<Longrightarrow> suitCount hand x = 0"
  by (auto simp: suitCount_def filter_empty_conv)

lemma bestSuit_max:
  assumes "hand \<noteq> []"
  shows "sort_key (\<lambda>k. - int (countOf (suitCounts hand) k)) (map fst (suitCounts hand)) \<noteq> []
    \<and> bestSuit hand \<in> suit ` set hand
    \<and> (\<forall>x. suitCount hand x \<le> suitCount hand (bestSuit hand))"
proof -
  let ?f = "\<lambda>k. - int (countOf (suitCounts hand) k)"
  let ?srt = "sort_key ?f (map fst (suitCounts hand))"
  have set: "set ?srt = suit ` set hand" by (simp add: keys_suitCounts)
  with assms have ne: "?srt \<noteq> []" by (metis empty_is_image set_empty)
  then obtain b rest where br: "?srt = b # rest" by (cases ?srt) auto
  then have best: "bestSuit hand = b" by (simp add: bestSuit_def Let_def)
  from br set have bin: "b \<in> suit ` set hand" by (metis list.set_intros(1))
  have "sorted (map ?f ?srt)" by (rule sorted_sort_key)
  with br have le: "\<forall>k \<in> set rest. ?f b \<le> ?f k" by simp
  have "suitCount hand x \<le> suitCount hand b" for x
  proof (cases "x \<in> suit ` set hand")
    case False
    then show ?thesis by (simp add: suitCount_zero)
  next
    case True
    with set br have "x = b \<or> x \<in> set rest" by auto
    with le show ?thesis by (auto simp: countOf_suitCounts)
  qed
  with ne best bin show ?thesis by simp
qed

section \<open>The example sessions, evaluated\<close>

lemma initGame_createDeck: "initGame createDeck = Inr exampleDeal"
proof -
  have "firstDiscardIndex (drop 16 createDeck) 0 = Inr 0"
    by (subst firstDiscardIndex.simps) (simp add: createDeck_def SUITS_def RANKS_def mkCard_def)
  from initGame_Inr [OF this] show ?thesis
    by (simp add: exampleDeal_def) (simp add: createDeck_def SUITS_def RANKS_def)
qed

lemma cardsInv_exampleDeal: "cardsInv exampleDeal"
  by (rule initGame_cardsInv [OF refl initGame_createDeck])

lemma play_exampleDeal:
  "handlePlayCard exampleDeal (mkCard Hearts R4) =
     Inr (exampleDeal\<lparr>playerHand := filter (\<lambda>c. card_id c \<noteq> ''4-hearts'') (take 8 createDeck),
                      discardPile := [mkCard Diamonds R4, mkCard Hearts R4],
                      currentTurn := Ai, currentSuit := None\<rparr>)"
  by (simp add: handlePlayCard_def exampleDeal_def topCard_def isValidMove_def mkCard_def
      createDeck_def SUITS_def RANKS_def)

lemma play_eight_exampleDeal:
  "handlePlayCard exampleDeal (mkCard Hearts R8) = Inr exampleSuitPrompt"
  by (simp add: handlePlayCard_def exampleDeal_def exampleSuitPrompt_def topCard_def
      isValidMove_def mkCard_def createDeck_def SUITS_def RANKS_def)

lemma run_to_suit_prompt:
  "run initialState [InitGame createDeck, PlayCard (mkCard Hearts R8)] = Inr exampleSuitPrompt"
  by (simp add: initGame_createDeck play_eight_exampleDeal)

lemma select_exampleSuitPrompt: "handleSuitSelect exampleSuitPrompt Hearts = exampleSuitChosen"
  by (simp add: handleSuitSelect_def exampleSuitChosen_def)

lemma run_to_suit_chosen:
  "run initialState [InitGame createDeck, PlayCard (mkCard Hearts R8), SelectSuit Hearts]
     = Inr exampleSuitChosen"
  by (simp add: initGame_createDeck play_eight_exampleDeal select_exampleSuitPrompt)

lemma cardsInv_exampleDrawWindow: "cardsInv exampleDrawWindow"
  by (simp add: cardsInv_def allCards_def exampleDrawWindow_def createDeck_def SUITS_def
      RANKS_def mkCard_def)

lemma run_exampleDrawWindow:
  "run exampleDrawWindow [DrawCard, PlayCard (mkCard Clubs RK), ForfeitTimeout] =
     Inr (exampleDrawWindow\<lparr>playerHand := [mkCard Clubs R3],
            discardPile := discardPile exampleDrawWindow @ [mkCard Clubs RK],
            currentTurn := Ai\<rparr>)"
  by (simp add: handleDrawCard_def handlePlayCard_def forfeitTurn_def topCard_def
      isValidMove_def exampleDrawWindow_def mkCard_def)

lemma exampleShuffle_perm: "mset exampleShuffle = mset createDeck"
  by (simp add: exampleShuffle_def createDeck_def SUITS_def RANKS_def)

lemmas example_defs = exampleShuffle_def exampleRest_def exampleLastCard_def exampleGame_def
  initialState_def mkCard_def

lemma exampleGame_run: "run initialState exampleGame = Inr exampleLastCard"
  by (simp add: example_defs initGame_def firstDiscardIndex.simps handlePlayCard_def aiTurn_def aiPlay_def aiDraw_def
      cardToPlay_def bestSuit_def suitCounts_def countOf_def topCard_def isValidMove_def Let_def)

lemma aiTurn_exampleAiEight:
  "aiTurn exampleAiEight =
     Inr (exampleAiEight\<lparr>aiHand := [mkCard Clubs R9, mkCard Spades R9, mkCard Spades R10,
                                      mkCard Diamonds RJ],
            discardPile := [mkCard Hearts R10, mkCard Hearts R7, mkCard Diamonds R8],
            currentSuit := Some Spades, currentTurn := Player\<rparr>)"
  by (simp add: aiTurn_def aiPlay_def cardToPlay_def bestSuit_def suitCounts_def countOf_def
      topCard_def isValidMove_def Let_def exampleAiEight_def mkCard_def)

section \<open>The claims\<close>

subsection \<open>Conservation of the cards\<close>

text \<open>Claim C1. A deal of a shuffled deck leaves the four piles holding the 52 cards, each once,
  and every action keeps it so: the player's play of a card of the player's hand, the player's
  draw, the choice of a suit, the AI's turn, and the forfeit of a turn. (\<open>handlePlayCard\<close> is
  only ever handed a card of \<open>playerHand\<close>: the hand is where the cards the player can click
  are drawn from.)\<close>

theorem cards_conserved:
  "(mset fullDeck = mset createDeck \<and> initGame fullDeck = Inr s0 \<longrightarrow> cardsInv s0)
   \<and> (cardsInv s \<longrightarrow>
        (\<forall>c s'. c \<in> set (playerHand s) \<and> handlePlayCard s c = Inr s' \<longrightarrow> cardsInv s')
      \<and> cardsInv (fst (handleDrawCard s))
      \<and> (\<forall>x. cardsInv (handleSuitSelect s x))
      \<and> (\<forall>s'. aiTurn s = Inr s' \<longrightarrow> cardsInv s')
      \<and> cardsInv (forfeitTurn s))"
  using initGame_cardsInv handlePlayCard_cardsInv handleDrawCard_cardsInv
    handleSuitSelect_cardsInv aiTurn_cardsInv forfeitTurn_cardsInv
  by blast

theorem cards_conserved_witness:
  "cardsInv exampleDeal
   \<and> mkCard Hearts R4 \<in> set (playerHand exampleDeal)
   \<and> initGame createDeck = Inr exampleDeal
   \<and> (\<exists>s'. handlePlayCard exampleDeal (mkCard Hearts R4) = Inr s' \<and> cardsInv s'
        \<and> length (playerHand s') = 7 \<and> length (discardPile s') = 2
        \<and> (\<exists>s''. aiTurn s' = Inr s'' \<and> cardsInv s''))
   \<and> cardsInv (fst (handleDrawCard exampleDeal))
   \<and> cardsInv (handleSuitSelect exampleDeal Clubs)
   \<and> cardsInv (forfeitTurn exampleDeal)"
proof -
  have i: "cardsInv exampleDeal" by (rule cardsInv_exampleDeal)
  have m: "mkCard Hearts R4 \<in> set (playerHand exampleDeal)"
    by (simp add: exampleDeal_def createDeck_def SUITS_def RANKS_def)
  let ?s = "exampleDeal\<lparr>playerHand := filter (\<lambda>c. card_id c \<noteq> ''4-hearts'') (take 8 createDeck),
                      discardPile := [mkCard Diamonds R4, mkCard Hearts R4],
                      currentTurn := Ai, currentSuit := None\<rparr>"
  note c = cards_conserved [of createDeck exampleDeal exampleDeal]
  from c i m play_exampleDeal have i': "cardsInv ?s" by blast
  have l: "length (playerHand ?s) = 7 \<and> length (discardPile ?s) = 2"
    by (simp add: createDeck_def SUITS_def RANKS_def mkCard_def)
  obtain s'' where a: "aiTurn ?s = Inr s''"
    using aiTurn_total [of ?s] by auto
  from cards_conserved [of createDeck exampleDeal ?s] i' a have "cardsInv s''" by blast
  with c i m play_exampleDeal i' l a initGame_createDeck show ?thesis by auto
qed

subsection \<open>Move legality\<close>

text \<open>Claim C2. On a top card that is there, \<open>isValidMove\<close> returns true exactly when, under an
  override, the card has the override's suit or is an eight, and, with no override, the card is
  an eight or has the suit or the rank of the top card. An eight is legal whatever the top card
  (present or not) and the override are.\<close>

theorem isValidMove_spec:
  "isValidMove c (Some t) ov =
     Inr (case ov of
            Some s \<Rightarrow> suit c = s \<or> rank c = R8
          | None \<Rightarrow> rank c = R8 \<or> suit c = suit t \<or> rank c = rank t)
   \<and> (rank c = R8 \<longrightarrow> isValidMove c tc ov = Inr True)"
  by (simp add: isValidMove_def split: option.splits)

theorem isValidMove_spec_witness:
  "isValidMove (mkCard Spades R8) (Some (mkCard Hearts RK)) (Some Clubs) = Inr True
   \<and> isValidMove (mkCard Spades R8) None (Some Clubs) = Inr True
   \<and> isValidMove (mkCard Spades R5) (Some (mkCard Hearts RK)) None = Inr False
   \<and> isValidMove (mkCard Spades R5) (Some (mkCard Hearts RK)) (Some Spades) = Inr True"
  using isValidMove_spec [of "mkCard Spades R8" "mkCard Hearts RK" "Some Clubs" None]
    isValidMove_spec [of "mkCard Spades R5" "mkCard Hearts RK" None None]
    isValidMove_spec [of "mkCard Spades R5" "mkCard Hearts RK" "Some Spades" None]
  by (simp add: mkCard_def)

subsection \<open>Winning\<close>

text \<open>Claim C3. An accepted play that empties the hand of whoever plays, the player or the AI,
  ends the session: the status is \<open>game_over\<close>, the winner is who played, and the turn stays
  where it was. Nothing is asked of the rank of the card, so this holds of an eight too: the
  empty hand is looked at before the rank is.\<close>

theorem win_on_empty_hand:
  "(currentTurn s = Player \<and> status s = Playing
      \<and> isValidMove c (topCard s) (currentSuit s) = Inr True
      \<and> filter (\<lambda>x. card_id x \<noteq> card_id c) (playerHand s) = []
    \<longrightarrow> (\<exists>s'. handlePlayCard s c = Inr s' \<and> status s' = GameOver \<and> winner s' = Some Player
          \<and> currentTurn s' = currentTurn s \<and> playerHand s' = []
          \<and> discardPile s' = discardPile s @ [c]))
   \<and> (currentTurn s = Ai \<and> status s = Playing
      \<and> playable (aiHand s) (topCard s) (currentSuit s) = Inr (f # r)
      \<and> filter (\<lambda>x. card_id x \<noteq> card_id (cardToPlay f r)) (aiHand s) = []
    \<longrightarrow> (\<exists>s'. aiTurn s = Inr s' \<and> status s' = GameOver \<and> winner s' = Some Ai
          \<and> currentTurn s' = currentTurn s \<and> aiHand s' = []
          \<and> discardPile s' = discardPile s @ [cardToPlay f r]))"
proof (intro conjI impI)
  assume "currentTurn s = Player \<and> status s = Playing
      \<and> isValidMove c (topCard s) (currentSuit s) = Inr True
      \<and> filter (\<lambda>x. card_id x \<noteq> card_id c) (playerHand s) = []"
  then show "\<exists>s'. handlePlayCard s c = Inr s' \<and> status s' = GameOver \<and> winner s' = Some Player
          \<and> currentTurn s' = currentTurn s \<and> playerHand s' = []
          \<and> discardPile s' = discardPile s @ [c]"
    by (simp add: handlePlayCard_accepted)
next
  assume "currentTurn s = Ai \<and> status s = Playing
      \<and> playable (aiHand s) (topCard s) (currentSuit s) = Inr (f # r)
      \<and> filter (\<lambda>x. card_id x \<noteq> card_id (cardToPlay f r)) (aiHand s) = []"
  then show "\<exists>s'. aiTurn s = Inr s' \<and> status s' = GameOver \<and> winner s' = Some Ai
          \<and> currentTurn s' = currentTurn s \<and> aiHand s' = []
          \<and> discardPile s' = discardPile s @ [cardToPlay f r]"
    by (simp add: aiTurn_plays aiPlay_def)
qed

theorem win_on_empty_hand_witness:
  "(\<exists>s'. handlePlayCard (exampleLastEight) (mkCard Hearts R8)
          = Inr s'
      \<and> status s' = GameOver \<and> winner s' = Some Player \<and> currentTurn s' = Player
      \<and> playerHand s' = [])
   \<and> (\<exists>s'. aiTurn exampleAiLastCard = Inr s'
      \<and> status s' = GameOver \<and> winner s' = Some Ai \<and> currentTurn s' = Ai \<and> aiHand s' = []
      \<and> discardPile s' = [mkCard Hearts R10, mkCard Hearts R5, mkCard Spades R8])"
proof -
  let ?p = "exampleLastEight"
  have p: "currentTurn ?p = Player \<and> status ?p = Playing
      \<and> isValidMove (mkCard Hearts R8) (topCard ?p) (currentSuit ?p) = Inr True
      \<and> filter (\<lambda>x. card_id x \<noteq> card_id (mkCard Hearts R8)) (playerHand ?p) = []"
    by (simp add: exampleLastEight_def isValidMove_def mkCard_def)
  have a: "currentTurn exampleAiLastCard = Ai \<and> status exampleAiLastCard = Playing
      \<and> playable (aiHand exampleAiLastCard) (topCard exampleAiLastCard)
           (currentSuit exampleAiLastCard) = Inr [mkCard Spades R8]
      \<and> filter (\<lambda>x. card_id x \<noteq> card_id (cardToPlay (mkCard Spades R8) []))
           (aiHand exampleAiLastCard) = []"
    by (simp add: exampleAiLastCard_def isValidMove_def mkCard_def cardToPlay_def topCard_def)
  have c: "cardToPlay (mkCard Spades R8) [] = mkCard Spades R8"
    by (simp add: cardToPlay_def mkCard_def)
  from win_on_empty_hand [of ?p "mkCard Hearts R8" "mkCard Spades R8" "[]"] p
  have 1: "\<exists>s'. handlePlayCard ?p (mkCard Hearts R8) = Inr s'
      \<and> status s' = GameOver \<and> winner s' = Some Player \<and> currentTurn s' = Player
      \<and> playerHand s' = []"
    by auto
  from win_on_empty_hand [of exampleAiLastCard "mkCard Hearts R8" "mkCard Spades R8" "[]"] a c
  have 2: "\<exists>s'. aiTurn exampleAiLastCard = Inr s'
      \<and> status s' = GameOver \<and> winner s' = Some Ai \<and> currentTurn s' = Ai \<and> aiHand s' = []
      \<and> discardPile s' = [mkCard Hearts R10, mkCard Hearts R5, mkCard Spades R8]"
    by (auto simp: exampleAiLastCard_def)
  from 1 2 show ?thesis by blast
qed

subsection \<open>Actions out of place\<close>

text \<open>A play out of turn, outside the status \<open>playing\<close> or of a card that \<open>isValidMove\<close>
  rejects, and a draw out of turn or outside \<open>playing\<close>, leave the session as it is; so does
  the AI's effect outside the AI's turn.\<close>

lemma illegal_play_is_noop:
  "currentTurn s \<noteq> Player \<or> status s \<noteq> Playing
     \<or> isValidMove c (topCard s) (currentSuit s) = Inr False
   \<Longrightarrow> handlePlayCard s c = Inr s"
  by (auto simp: handlePlayCard_def)

lemma illegal_draw_is_noop:
  "currentTurn s \<noteq> Player \<or> status s \<noteq> Playing \<Longrightarrow> handleDrawCard s = (s, False)"
  by (auto simp: handleDrawCard_def)

lemma aiTurn_out_of_turn_is_noop:
  "currentTurn s \<noteq> Ai \<or> status s \<noteq> Playing \<Longrightarrow> aiTurn s = Inr s"
  by (auto simp: aiTurn_def)

text \<open>Claim C4. \<open>handleSuitSelect\<close> has no guard of its own, unlike \<open>handlePlayCard\<close> and
  \<open>handleDrawCard\<close>: outside the status \<open>suit_selection\<close> it still writes the suit, the status
  and the turn. In a session where the player has just named hearts (status \<open>playing\<close>, the
  AI to move) a second choice changes the named suit to spades; in a session that is over it sets
  the status back to \<open>playing\<close> and hands the turn to the AI.\<close>

theorem selectSuit_outside_suit_selection:
  "run initialState [InitGame createDeck, PlayCard (mkCard Hearts R8), SelectSuit Hearts]
     = Inr exampleSuitChosen
   \<and> status exampleSuitChosen = Playing
   \<and> handleSuitSelect exampleSuitChosen Spades = exampleSuitChosen\<lparr>currentSuit := Some Spades\<rparr>
   \<and> handleSuitSelect exampleSuitChosen Spades \<noteq> exampleSuitChosen
   \<and> run initialState (exampleGame @ [PlayCard (mkCard Spades RK)]) = Inr exampleGameOver
   \<and> status exampleGameOver = GameOver
   \<and> handleSuitSelect exampleGameOver Hearts =
       exampleGameOver\<lparr>currentSuit := Some Hearts, status := Playing, currentTurn := Ai\<rparr>
   \<and> handleSuitSelect exampleGameOver Hearts \<noteq> exampleGameOver"
proof -
  note 1 = run_to_suit_chosen
  have 2: "status exampleSuitChosen = Playing"
    and 3: "handleSuitSelect exampleSuitChosen Spades
        = exampleSuitChosen\<lparr>currentSuit := Some Spades\<rparr>"
    and 4: "currentSuit (handleSuitSelect exampleSuitChosen Spades)
        \<noteq> currentSuit exampleSuitChosen"
    by (simp_all add: handleSuitSelect_def exampleSuitChosen_def)
  have v: "isValidMove (mkCard Spades RK) (topCard exampleLastCard)
      (currentSuit exampleLastCard) = Inr True"
    by (simp add: exampleLastCard_def isValidMove_def mkCard_def)
  have g: "currentTurn exampleLastCard = Player" "status exampleLastCard = Playing"
    by (simp_all add: exampleLastCard_def)
  have "handlePlayCard exampleLastCard (mkCard Spades RK) = Inr exampleGameOver"
    unfolding handlePlayCard_accepted [OF g v]
    by (simp add: exampleGameOver_def) (simp add: exampleLastCard_def)
  then have 5: "run initialState (exampleGame @ [PlayCard (mkCard Spades RK)])
      = Inr exampleGameOver"
    unfolding run_append exampleGame_run by simp
  have 6: "status exampleGameOver = GameOver"
    and 7: "handleSuitSelect exampleGameOver Hearts =
       exampleGameOver\<lparr>currentSuit := Some Hearts, status := Playing, currentTurn := Ai\<rparr>"
    and 8: "status (handleSuitSelect exampleGameOver Hearts) \<noteq> status exampleGameOver"
    by (simp_all add: handleSuitSelect_def exampleGameOver_def exampleLastCard_def)
  from 4 have ne4: "handleSuitSelect exampleSuitChosen Spades \<noteq> exampleSuitChosen" by auto
  from 8 have ne8: "handleSuitSelect exampleGameOver Hearts \<noteq> exampleGameOver" by auto
  from 1 2 3 ne4 5 6 7 ne8 show ?thesis by simp
qed

subsection \<open>The suit override after a play\<close>

text \<open>Claim C5, as stated, fails where the play empties the hand: that branch returns before the
  override is touched. On \<open>exampleShuffle\<close> the AI's eight names spades, the player's last card
  is the king of spades, and the session ends with the override still spades.\<close>

theorem suit_cleared_counterexample:
  "run initialState exampleGame = Inr exampleLastCard
   \<and> currentTurn exampleLastCard = Player \<and> status exampleLastCard = Playing
   \<and> isValidMove (mkCard Spades RK) (topCard exampleLastCard) (currentSuit exampleLastCard)
       = Inr True
   \<and> rank (mkCard Spades RK) \<noteq> R8
   \<and> handlePlayCard exampleLastCard (mkCard Spades RK) =
       Inr (exampleLastCard\<lparr>playerHand := [],
              discardPile := discardPile exampleLastCard @ [mkCard Spades RK],
              status := GameOver, winner := Some Player\<rparr>)
   \<and> currentSuit (exampleLastCard\<lparr>playerHand := [],
              discardPile := discardPile exampleLastCard @ [mkCard Spades RK],
              status := GameOver, winner := Some Player\<rparr>) = Some Spades"
proof -
  have v: "isValidMove (mkCard Spades RK) (topCard exampleLastCard)
      (currentSuit exampleLastCard) = Inr True"
    by (simp add: exampleLastCard_def isValidMove_def mkCard_def)
  have g: "currentTurn exampleLastCard = Player" "status exampleLastCard = Playing"
    by (simp_all add: exampleLastCard_def)
  have h: "filter (\<lambda>x. card_id x \<noteq> card_id (mkCard Spades RK)) (playerHand exampleLastCard) = []"
    by (simp add: exampleLastCard_def)
  from handlePlayCard_accepted [OF g v] h
  have "handlePlayCard exampleLastCard (mkCard Spades RK) =
       Inr (exampleLastCard\<lparr>playerHand := [],
              discardPile := discardPile exampleLastCard @ [mkCard Spades RK],
              status := GameOver, winner := Some Player\<rparr>)"
    by simp
  moreover have "currentSuit exampleLastCard = Some Spades" by (simp add: exampleLastCard_def)
  moreover have "rank (mkCard Spades RK) \<noteq> R8" by (simp add: mkCard_def)
  ultimately show ?thesis using exampleGame_run v g by simp
qed

text \<open>Claim C5, amended. After an accepted play of a card that is not an eight and that leaves
  the hand of whoever plays, the player or the AI, non-empty, \<open>currentSuit\<close> is null.\<close>

theorem suit_cleared_when_hand_remains:
  "(currentTurn s = Player \<and> status s = Playing
      \<and> isValidMove c (topCard s) (currentSuit s) = Inr True \<and> rank c \<noteq> R8
      \<and> filter (\<lambda>x. card_id x \<noteq> card_id c) (playerHand s) \<noteq> []
    \<longrightarrow> (\<exists>s'. handlePlayCard s c = Inr s' \<and> currentSuit s' = None
          \<and> discardPile s' = discardPile s @ [c]))
   \<and> (currentTurn s = Ai \<and> status s = Playing
      \<and> playable (aiHand s) (topCard s) (currentSuit s) = Inr (f # r)
      \<and> rank (cardToPlay f r) \<noteq> R8
      \<and> filter (\<lambda>x. card_id x \<noteq> card_id (cardToPlay f r)) (aiHand s) \<noteq> []
    \<longrightarrow> (\<exists>s'. aiTurn s = Inr s' \<and> currentSuit s' = None
          \<and> discardPile s' = discardPile s @ [cardToPlay f r]))"
proof (intro conjI impI)
  assume "currentTurn s = Player \<and> status s = Playing
      \<and> isValidMove c (topCard s) (currentSuit s) = Inr True \<and> rank c \<noteq> R8
      \<and> filter (\<lambda>x. card_id x \<noteq> card_id c) (playerHand s) \<noteq> []"
  then show "\<exists>s'. handlePlayCard s c = Inr s' \<and> currentSuit s' = None
          \<and> discardPile s' = discardPile s @ [c]"
    by (simp add: handlePlayCard_accepted)
next
  assume "currentTurn s = Ai \<and> status s = Playing
      \<and> playable (aiHand s) (topCard s) (currentSuit s) = Inr (f # r)
      \<and> rank (cardToPlay f r) \<noteq> R8
      \<and> filter (\<lambda>x. card_id x \<noteq> card_id (cardToPlay f r)) (aiHand s) \<noteq> []"
  then show "\<exists>s'. aiTurn s = Inr s' \<and> currentSuit s' = None
          \<and> discardPile s' = discardPile s @ [cardToPlay f r]"
    by (simp add: aiTurn_plays aiPlay_def)
qed

theorem suit_cleared_when_hand_remains_witness:
  "(\<exists>s'. handlePlayCard exampleOverride (mkCard Spades RK) = Inr s' \<and> currentSuit s' = None
      \<and> discardPile s' = [mkCard Hearts R10, mkCard Diamonds R8, mkCard Spades RK])
   \<and> currentSuit exampleOverride = Some Spades
   \<and> (\<exists>s'. aiTurn (exampleOverride\<lparr>currentTurn := Ai\<rparr>) = Inr s' \<and> currentSuit s' = None
      \<and> discardPile s' = [mkCard Hearts R10, mkCard Diamonds R8, mkCard Spades R4])"
proof -
  let ?a = "exampleOverride\<lparr>currentTurn := Ai\<rparr>"
  have p: "currentTurn exampleOverride = Player \<and> status exampleOverride = Playing
      \<and> isValidMove (mkCard Spades RK) (topCard exampleOverride) (currentSuit exampleOverride)
          = Inr True
      \<and> rank (mkCard Spades RK) \<noteq> R8
      \<and> filter (\<lambda>x. card_id x \<noteq> card_id (mkCard Spades RK)) (playerHand exampleOverride) \<noteq> []"
    by (simp add: exampleOverride_def isValidMove_def mkCard_def)
  have c: "cardToPlay (mkCard Spades R4) [] = mkCard Spades R4"
    by (simp add: cardToPlay_def mkCard_def)
  have a: "currentTurn ?a = Ai \<and> status ?a = Playing
      \<and> playable (aiHand ?a) (topCard ?a) (currentSuit ?a) = Inr [mkCard Spades R4]
      \<and> rank (cardToPlay (mkCard Spades R4) []) \<noteq> R8
      \<and> filter (\<lambda>x. card_id x \<noteq> card_id (cardToPlay (mkCard Spades R4) [])) (aiHand ?a) \<noteq> []"
    unfolding c by (simp add: exampleOverride_def isValidMove_def mkCard_def topCard_def)
  from suit_cleared_when_hand_remains
    [of exampleOverride "mkCard Spades RK" "mkCard Spades R4" "[]"] p
  have 1: "\<exists>s'. handlePlayCard exampleOverride (mkCard Spades RK) = Inr s'
      \<and> currentSuit s' = None
      \<and> discardPile s' = [mkCard Hearts R10, mkCard Diamonds R8, mkCard Spades RK]"
    by (auto simp: exampleOverride_def)
  from suit_cleared_when_hand_remains [of ?a "mkCard Spades RK" "mkCard Spades R4" "[]"] a c
  have 2: "\<exists>s'. aiTurn ?a = Inr s' \<and> currentSuit s' = None
      \<and> discardPile s' = [mkCard Hearts R10, mkCard Diamonds R8, mkCard Spades R4]"
    by (auto simp: exampleOverride_def)
  have "currentSuit exampleOverride = Some Spades" by (simp add: exampleOverride_def)
  with 1 2 show ?thesis by blast
qed

subsection \<open>The AI's policy\<close>

text \<open>Claim C6. On the AI's turn, with a card on the discard pile: if the hand holds a legal card
  that is not an eight, the AI plays the first such card in hand order; if every legal card is an
  eight, it plays the first legal card, an eight; playing a card puts it on the discard pile and
  takes it out of the hand. If no card is legal, the AI draws the front card of a non-empty deck,
  or forfeits on an empty one, and either way the turn passes to the player.\<close>

theorem ai_policy:
  "discardPile s \<noteq> [] \<and> currentTurn s = Ai \<and> status s = Playing \<longrightarrow>
     (\<forall>n. find (\<lambda>c. isValidMove c (topCard s) (currentSuit s) = Inr True \<and> rank c \<noteq> R8)
            (aiHand s) = Some n
          \<longrightarrow> aiTurn s = Inr (aiPlay s n))
   \<and> (\<forall>e. find (\<lambda>c. isValidMove c (topCard s) (currentSuit s) = Inr True \<and> rank c \<noteq> R8)
            (aiHand s) = None
          \<and> find (\<lambda>c. isValidMove c (topCard s) (currentSuit s) = Inr True) (aiHand s) = Some e
          \<longrightarrow> rank e = R8 \<and> aiTurn s = Inr (aiPlay s e))
   \<and> (\<forall>c. discardPile (aiPlay s c) = discardPile s @ [c]
          \<and> aiHand (aiPlay s c) = filter (\<lambda>x. card_id x \<noteq> card_id c) (aiHand s)
          \<and> deck (aiPlay s c) = deck s \<and> playerHand (aiPlay s c) = playerHand s)
   \<and> (filter (\<lambda>c. isValidMove c (topCard s) (currentSuit s) = Inr True) (aiHand s) = []
        \<and> deck s \<noteq> []
          \<longrightarrow> aiTurn s = Inr (s\<lparr>deck := tl (deck s), aiHand := aiHand s @ [hd (deck s)],
                                  currentTurn := Player\<rparr>))
   \<and> (filter (\<lambda>c. isValidMove c (topCard s) (currentSuit s) = Inr True) (aiHand s) = []
        \<and> deck s = []
          \<longrightarrow> aiTurn s = Inr (s\<lparr>currentTurn := Player\<rparr>))"
proof (intro impI, elim conjE)
  let ?V = "\<lambda>c. isValidMove c (topCard s) (currentSuit s) = Inr True"
  let ?ps = "filter ?V (aiHand s)"
  assume pile: "discardPile s \<noteq> []" and turn: "currentTurn s = Ai" and st: "status s = Playing"
  have pl: "playable (aiHand s) (topCard s) (currentSuit s) = Inr ?ps"
    by (rule playable_pile [OF pile])
  have a: "aiTurn s = Inr (aiPlay s n)"
    if "find (\<lambda>c. ?V c \<and> rank c \<noteq> R8) (aiHand s) = Some n" for n
  proof -
    from that have f: "find (\<lambda>c. rank c \<noteq> R8) ?ps = Some n" by (simp add: find_filter)
    then obtain p r where pr: "?ps = p # r" by (cases ?ps) auto
    with f have "cardToPlay p r = n" by (simp add: cardToPlay_def)
    with aiTurn_plays [OF turn st pl [unfolded pr]] show ?thesis by simp
  qed
  have b: "rank e = R8 \<and> aiTurn s = Inr (aiPlay s e)"
    if "find (\<lambda>c. ?V c \<and> rank c \<noteq> R8) (aiHand s) = None" and "find ?V (aiHand s) = Some e" for e
  proof -
    from that(1) have f: "find (\<lambda>c. rank c \<noteq> R8) ?ps = None" by (simp add: find_filter)
    from that(2) obtain r where pr: "?ps = e # r"
      by (auto simp: find_first_of_filter [of ?V] split: list.splits)
    from f pr have c: "cardToPlay e r = e" by (simp add: cardToPlay_def)
    from f pr have "rank e = R8" by (auto split: if_splits)
    with aiTurn_plays [OF turn st pl [unfolded pr]] c show ?thesis by simp
  qed
  have d: "aiTurn s = Inr (aiDraw s)" if "?ps = []"
    using aiTurn_draws [OF turn st] pl that by simp
  have d1: "aiTurn s = Inr (s\<lparr>deck := tl (deck s), aiHand := aiHand s @ [hd (deck s)],
      currentTurn := Player\<rparr>)" if "?ps = []" and "deck s \<noteq> []"
    using d [OF that(1)] that(2) by (cases "deck s") (simp_all add: aiDraw_def)
  have d2: "aiTurn s = Inr (s\<lparr>currentTurn := Player\<rparr>)" if "?ps = []" and "deck s = []"
    using d [OF that(1)] that(2) by (simp add: aiDraw_def)
  from a b d1 d2 aiPlay_piles [of s]
  show "(\<forall>n. find (\<lambda>c. ?V c \<and> rank c \<noteq> R8) (aiHand s) = Some n
          \<longrightarrow> aiTurn s = Inr (aiPlay s n))
   \<and> (\<forall>e. find (\<lambda>c. ?V c \<and> rank c \<noteq> R8) (aiHand s) = None \<and> find ?V (aiHand s) = Some e
          \<longrightarrow> rank e = R8 \<and> aiTurn s = Inr (aiPlay s e))
   \<and> (\<forall>c. discardPile (aiPlay s c) = discardPile s @ [c]
          \<and> aiHand (aiPlay s c) = filter (\<lambda>x. card_id x \<noteq> card_id c) (aiHand s)
          \<and> deck (aiPlay s c) = deck s \<and> playerHand (aiPlay s c) = playerHand s)
   \<and> (?ps = [] \<and> deck s \<noteq> []
          \<longrightarrow> aiTurn s = Inr (s\<lparr>deck := tl (deck s), aiHand := aiHand s @ [hd (deck s)],
                                  currentTurn := Player\<rparr>))
   \<and> (?ps = [] \<and> deck s = [] \<longrightarrow> aiTurn s = Inr (s\<lparr>currentTurn := Player\<rparr>))"
    by blast
qed

theorem ai_policy_witness:
  "aiTurn exampleAiChoice = Inr (aiPlay exampleAiChoice (mkCard Spades R7))
   \<and> discardPile (aiPlay exampleAiChoice (mkCard Spades R7))
       = [mkCard Hearts R10, mkCard Hearts R7, mkCard Spades R7]
   \<and> aiHand (aiPlay exampleAiChoice (mkCard Spades R7))
       = [mkCard Clubs R9, mkCard Hearts R8, mkCard Hearts R3]
   \<and> rank (mkCard Diamonds R8) = R8
   \<and> aiTurn exampleAiEight = Inr (aiPlay exampleAiEight (mkCard Diamonds R8))
   \<and> aiTurn (exampleEmptyDeck\<lparr>currentTurn := Ai\<rparr>) = Inr exampleEmptyDeck
   \<and> aiTurn (exampleEmptyDeck\<lparr>deck := [mkCard Diamonds R2], currentTurn := Ai\<rparr>)
       = Inr (exampleEmptyDeck\<lparr>aiHand := [mkCard Spades R4, mkCard Clubs R7,
                                            mkCard Diamonds R2]\<rparr>)"
proof -
  let ?e = "exampleEmptyDeck\<lparr>currentTurn := Ai\<rparr>"
  let ?d = "exampleEmptyDeck\<lparr>deck := [mkCard Diamonds R2], currentTurn := Ai\<rparr>"
  have g1: "discardPile exampleAiChoice \<noteq> [] \<and> currentTurn exampleAiChoice = Ai
      \<and> status exampleAiChoice = Playing"
    by (simp add: exampleAiChoice_def)
  have f1: "find (\<lambda>c. isValidMove c (topCard exampleAiChoice) (currentSuit exampleAiChoice)
        = Inr True \<and> rank c \<noteq> R8) (aiHand exampleAiChoice) = Some (mkCard Spades R7)"
    by (simp add: exampleAiChoice_def topCard_def isValidMove_def mkCard_def)
  from ai_policy [of exampleAiChoice] g1 f1
  have 1: "aiTurn exampleAiChoice = Inr (aiPlay exampleAiChoice (mkCard Spades R7))"
    and "discardPile (aiPlay exampleAiChoice (mkCard Spades R7))
       = discardPile exampleAiChoice @ [mkCard Spades R7]"
    and "aiHand (aiPlay exampleAiChoice (mkCard Spades R7))
       = filter (\<lambda>x. card_id x \<noteq> card_id (mkCard Spades R7)) (aiHand exampleAiChoice)"
    by blast+
  then have 2: "discardPile (aiPlay exampleAiChoice (mkCard Spades R7))
       = [mkCard Hearts R10, mkCard Hearts R7, mkCard Spades R7]"
    and 3: "aiHand (aiPlay exampleAiChoice (mkCard Spades R7))
       = [mkCard Clubs R9, mkCard Hearts R8, mkCard Hearts R3]"
    by (simp_all add: exampleAiChoice_def mkCard_def)
  have g2: "discardPile exampleAiEight \<noteq> [] \<and> currentTurn exampleAiEight = Ai
      \<and> status exampleAiEight = Playing"
    by (simp add: exampleAiEight_def)
  have f2: "find (\<lambda>c. isValidMove c (topCard exampleAiEight) (currentSuit exampleAiEight)
        = Inr True \<and> rank c \<noteq> R8) (aiHand exampleAiEight) = None"
    and f2': "find (\<lambda>c. isValidMove c (topCard exampleAiEight) (currentSuit exampleAiEight)
        = Inr True) (aiHand exampleAiEight) = Some (mkCard Diamonds R8)"
    by (simp_all add: exampleAiEight_def topCard_def isValidMove_def mkCard_def)
  from ai_policy [of exampleAiEight] g2 f2 f2'
  have 4: "rank (mkCard Diamonds R8) = R8
      \<and> aiTurn exampleAiEight = Inr (aiPlay exampleAiEight (mkCard Diamonds R8))"
    by blast
  have g3: "discardPile ?e \<noteq> [] \<and> currentTurn ?e = Ai \<and> status ?e = Playing"
    and g4: "discardPile ?d \<noteq> [] \<and> currentTurn ?d = Ai \<and> status ?d = Playing"
    by (simp_all add: exampleEmptyDeck_def)
  have f3: "filter (\<lambda>c. isValidMove c (topCard ?e) (currentSuit ?e) = Inr True) (aiHand ?e) = []
      \<and> deck ?e = []"
    and f4: "filter (\<lambda>c. isValidMove c (topCard ?d) (currentSuit ?d) = Inr True) (aiHand ?d) = []
      \<and> deck ?d \<noteq> []"
    by (simp_all add: exampleEmptyDeck_def topCard_def isValidMove_def mkCard_def)
  from ai_policy [of ?e] g3 f3 have "aiTurn ?e = Inr (?e\<lparr>currentTurn := Player\<rparr>)" by blast
  then have 5: "aiTurn ?e = Inr exampleEmptyDeck" by (simp add: exampleEmptyDeck_def)
  from ai_policy [of ?d] g4 f4
  have "aiTurn ?d = Inr (?d\<lparr>deck := tl (deck ?d), aiHand := aiHand ?d @ [hd (deck ?d)],
      currentTurn := Player\<rparr>)"
    by blast
  then have 6: "aiTurn ?d = Inr (exampleEmptyDeck\<lparr>aiHand := [mkCard Spades R4, mkCard Clubs R7,
      mkCard Diamonds R2]\<rparr>)"
    by (simp add: exampleEmptyDeck_def)
  from 1 2 3 4 5 6 show ?thesis by simp
qed

subsection \<open>The deal\<close>

text \<open>Claim C7. A deal from 52 shuffled cards whose last 36 hold a card that is not an eight
  succeeds; the player holds the first 8 cards, the AI the next 8, the discard pile is one card
  that is not an eight, and 35 cards are left in the deck.\<close>

theorem initGame_deal:
  assumes len: "length fullDeck = 52"
    and ne: "\<exists>c \<in> set (drop 16 fullDeck). rank c \<noteq> R8"
  shows "\<exists>s c. initGame fullDeck = Inr s
      \<and> playerHand s = take 8 fullDeck \<and> length (playerHand s) = 8
      \<and> aiHand s = take 8 (drop 8 fullDeck) \<and> length (aiHand s) = 8
      \<and> discardPile s = [c] \<and> rank c \<noteq> R8
      \<and> length (deck s) = 35"
proof -
  let ?r = "drop 16 fullDeck"
  from ne obtain j where j: "j < length ?r" "rank (?r ! j) \<noteq> R8"
    by (auto simp: in_set_conv_nth)
  with firstDiscardIndex_total [of 0 j ?r] obtain i where i: "firstDiscardIndex ?r 0 = Inr i"
    by auto
  from firstDiscardIndex_sound [OF i] have b: "i < length ?r" "rank (?r ! i) \<noteq> R8" by auto
  from len b(1) have "length (take i ?r @ drop (i + 1) ?r) = 35" by simp
  with initGame_Inr [OF i] len b(2) show ?thesis by simp
qed

theorem initGame_deal_witness:
  "length createDeck = 52
   \<and> (\<exists>c. c \<in> set (drop 16 createDeck) \<and> rank c \<noteq> R8)
   \<and> (\<exists>s c. initGame createDeck = Inr s
      \<and> playerHand s = take 8 createDeck \<and> length (playerHand s) = 8
      \<and> aiHand s = take 8 (drop 8 createDeck) \<and> length (aiHand s) = 8
      \<and> discardPile s = [c] \<and> rank c \<noteq> R8
      \<and> length (deck s) = 35)"
proof -
  have l: "length createDeck = 52" by (rule length_createDeck)
  have "mkCard Diamonds R4 \<in> set (drop 16 createDeck)"
    by (simp add: createDeck_def SUITS_def RANKS_def)
  moreover have "rank (mkCard Diamonds R4) \<noteq> R8" by (simp add: mkCard_def)
  ultimately have n: "\<exists>c \<in> set (drop 16 createDeck). rank c \<noteq> R8" by blast
  from initGame_deal [OF l n] l n show ?thesis by blast
qed

subsection \<open>Drawing from an empty deck\<close>

text \<open>Claim C8, as stated, fails for the player: \<open>handleDrawCard\<close> on an empty deck writes no
  state, so that after the call it is still the player's turn, and a legal card played before
  the timer fires is accepted. In \<open>exampleDrawWindow\<close> the player draws from the empty deck,
  plays the king of clubs, and the timer fires: a card has left the hand for the discard
  pile.\<close>

theorem empty_deck_forfeits_counterexample:
  "currentTurn exampleDrawWindow = Player \<and> status exampleDrawWindow = Playing
   \<and> deck exampleDrawWindow = []
   \<and> handleDrawCard exampleDrawWindow = (exampleDrawWindow, True)
   \<and> currentTurn (fst (handleDrawCard exampleDrawWindow)) = Player
   \<and> run exampleDrawWindow [DrawCard, PlayCard (mkCard Clubs RK), ForfeitTimeout] =
       Inr (exampleDrawWindow\<lparr>playerHand := [mkCard Clubs R3],
              discardPile := discardPile exampleDrawWindow @ [mkCard Clubs RK],
              currentTurn := Ai\<rparr>)
   \<and> playerHand exampleDrawWindow = [mkCard Clubs RK, mkCard Clubs R3]"
proof -
  have "currentTurn exampleDrawWindow = Player \<and> status exampleDrawWindow = Playing
      \<and> deck exampleDrawWindow = []
      \<and> playerHand exampleDrawWindow = [mkCard Clubs RK, mkCard Clubs R3]"
    by (simp add: exampleDrawWindow_def)
  moreover from this have "handleDrawCard exampleDrawWindow = (exampleDrawWindow, True)"
    by (simp add: handleDrawCard_def)
  ultimately show ?thesis using run_exampleDrawWindow by simp
qed

text \<open>Claim C8, amended. A draw by the player in turn, in the status \<open>playing\<close>, from an empty
  deck changes no field of the session and arms the timer of the forfeit, which is armed in no
  other case; when the timer fires it sets the turn to the AI on the session as it is then and
  changes no other field, so that with no action in between the session is the one of the draw
  with the turn handed over. When the AI has no legal card and the deck is empty, the turn goes
  to the player at once and no other field changes.\<close>

theorem empty_deck_forfeit_by_timer:
  "(currentTurn s = Player \<and> status s = Playing \<and> deck s = []
    \<longrightarrow> handleDrawCard s = (s, True)
        \<and> run s [DrawCard, ForfeitTimeout] = Inr (s\<lparr>currentTurn := Ai\<rparr>))
   \<and> (snd (handleDrawCard s) \<longrightarrow> currentTurn s = Player \<and> status s = Playing \<and> deck s = [])
   \<and> forfeitTurn prev = prev\<lparr>currentTurn := Ai\<rparr>
   \<and> (currentTurn s = Ai \<and> status s = Playing
      \<and> playable (aiHand s) (topCard s) (currentSuit s) = Inr [] \<and> deck s = []
    \<longrightarrow> aiTurn s = Inr (s\<lparr>currentTurn := Player\<rparr>))"
proof (intro conjI impI)
  assume "currentTurn s = Player \<and> status s = Playing \<and> deck s = []"
  then show "handleDrawCard s = (s, True)"
    and "run s [DrawCard, ForfeitTimeout] = Inr (s\<lparr>currentTurn := Ai\<rparr>)"
    by (simp_all add: handleDrawCard_def forfeitTurn_def)
next
  assume "snd (handleDrawCard s)"
  then show "currentTurn s = Player" and "status s = Playing" and "deck s = []"
    by (auto simp: handleDrawCard_def split: if_splits list.splits)
next
  show "forfeitTurn prev = prev\<lparr>currentTurn := Ai\<rparr>" by (simp add: forfeitTurn_def)
next
  assume "currentTurn s = Ai \<and> status s = Playing
      \<and> playable (aiHand s) (topCard s) (currentSuit s) = Inr [] \<and> deck s = []"
  then show "aiTurn s = Inr (s\<lparr>currentTurn := Player\<rparr>)"
    by (simp add: aiTurn_def aiDraw_def)
qed

theorem empty_deck_forfeit_by_timer_witness:
  "handleDrawCard exampleEmptyDeck = (exampleEmptyDeck, True)
   \<and> run exampleEmptyDeck [DrawCard, ForfeitTimeout]
       = Inr (exampleEmptyDeck\<lparr>currentTurn := Ai\<rparr>)
   \<and> snd (handleDrawCard exampleDrawWindow) \<and> deck exampleDrawWindow = []
   \<and> aiTurn (exampleEmptyDeck\<lparr>currentTurn := Ai\<rparr>) = Inr exampleEmptyDeck
   \<and> deck exampleEmptyDeck = [] \<and> currentTurn exampleEmptyDeck = Player
   \<and> status exampleEmptyDeck = Playing"
proof -
  let ?a = "exampleEmptyDeck\<lparr>currentTurn := Ai\<rparr>"
  have p: "currentTurn exampleEmptyDeck = Player \<and> status exampleEmptyDeck = Playing
      \<and> deck exampleEmptyDeck = []"
    by (simp add: exampleEmptyDeck_def)
  have a: "currentTurn ?a = Ai \<and> status ?a = Playing
      \<and> playable (aiHand ?a) (topCard ?a) (currentSuit ?a) = Inr [] \<and> deck ?a = []"
    by (simp add: exampleEmptyDeck_def isValidMove_def mkCard_def topCard_def)
  have e: "?a\<lparr>currentTurn := Player\<rparr> = exampleEmptyDeck"
    by (simp add: exampleEmptyDeck_def)
  have w: "snd (handleDrawCard exampleDrawWindow)"
    by (simp add: handleDrawCard_def exampleDrawWindow_def)
  from empty_deck_forfeit_by_timer [of exampleEmptyDeck] p
  have 1: "handleDrawCard exampleEmptyDeck = (exampleEmptyDeck, True)
      \<and> run exampleEmptyDeck [DrawCard, ForfeitTimeout] = Inr ?a"
    by blast
  from empty_deck_forfeit_by_timer [of ?a] a e
  have 2: "aiTurn ?a = Inr exampleEmptyDeck" by simp
  from empty_deck_forfeit_by_timer [of exampleDrawWindow] w
  have 3: "deck exampleDrawWindow = []" by blast
  from 1 2 3 w p show ?thesis by blast
qed

subsection \<open>The suit the AI names\<close>

text \<open>Claim C9. When the AI plays an eight and keeps a non-empty hand, the suit it names is held
  in that hand, no suit has more cards in that hand than it has, and the sorted list of tallied
  suits is not empty, so that the fallback to hearts is not what is named.\<close>

theorem ai_suit_choice:
  "currentTurn s = Ai \<and> status s = Playing
     \<and> playable (aiHand s) (topCard s) (currentSuit s) = Inr (f # r)
     \<and> rank (cardToPlay f r) = R8
     \<and> filter (\<lambda>x. card_id x \<noteq> card_id (cardToPlay f r)) (aiHand s) \<noteq> []
   \<longrightarrow> (\<exists>s' b. aiTurn s = Inr s' \<and> currentSuit s' = Some b
          \<and> aiHand s' = filter (\<lambda>x. card_id x \<noteq> card_id (cardToPlay f r)) (aiHand s)
          \<and> b \<in> suit ` set (aiHand s')
          \<and> (\<forall>x. suitCount (aiHand s') x \<le> suitCount (aiHand s') b)
          \<and> sort_key (\<lambda>k. - int (countOf (suitCounts (aiHand s')) k))
               (map fst (suitCounts (aiHand s'))) \<noteq> [])"
proof (intro impI, elim conjE)
  let ?h = "filter (\<lambda>x. card_id x \<noteq> card_id (cardToPlay f r)) (aiHand s)"
  assume turn: "currentTurn s = Ai" and st: "status s = Playing"
    and pl: "playable (aiHand s) (topCard s) (currentSuit s) = Inr (f # r)"
    and eight: "rank (cardToPlay f r) = R8" and ne: "?h \<noteq> []"
  let ?s' = "aiPlay s (cardToPlay f r)"
  have 1: "aiTurn s = Inr ?s'" by (rule aiTurn_plays [OF turn st pl])
  from eight ne have 2: "currentSuit ?s' = Some (bestSuit ?h)" and 3: "aiHand ?s' = ?h"
    by (simp_all add: aiPlay_def Let_def)
  from bestSuit_max [OF ne] 1 2 3
  show "\<exists>s' b. aiTurn s = Inr s' \<and> currentSuit s' = Some b \<and> aiHand s' = ?h
          \<and> b \<in> suit ` set (aiHand s')
          \<and> (\<forall>x. suitCount (aiHand s') x \<le> suitCount (aiHand s') b)
          \<and> sort_key (\<lambda>k. - int (countOf (suitCounts (aiHand s')) k))
               (map fst (suitCounts (aiHand s'))) \<noteq> []"
    by auto
qed

theorem ai_suit_choice_witness:
  "\<exists>s'. aiTurn exampleAiEight = Inr s' \<and> currentSuit s' = Some Spades
     \<and> aiHand s' = [mkCard Clubs R9, mkCard Spades R9, mkCard Spades R10, mkCard Diamonds RJ]
     \<and> (\<forall>x. suitCount (aiHand s') x \<le> suitCount (aiHand s') Spades)"
proof -
  have g: "currentTurn exampleAiEight = Ai \<and> status exampleAiEight = Playing
     \<and> playable (aiHand exampleAiEight) (topCard exampleAiEight) (currentSuit exampleAiEight)
         = Inr [mkCard Diamonds R8]"
    by (simp add: exampleAiEight_def topCard_def isValidMove_def mkCard_def)
  have c: "cardToPlay (mkCard Diamonds R8) [] = mkCard Diamonds R8"
    by (simp add: cardToPlay_def mkCard_def)
  have h: "rank (cardToPlay (mkCard Diamonds R8) []) = R8
     \<and> filter (\<lambda>x. card_id x \<noteq> card_id (cardToPlay (mkCard Diamonds R8) []))
         (aiHand exampleAiEight) \<noteq> []"
    unfolding c by (simp add: exampleAiEight_def mkCard_def)
  from ai_suit_choice [of exampleAiEight "mkCard Diamonds R8" "[]"] g h
  obtain s' b where s': "aiTurn exampleAiEight = Inr s'" "currentSuit s' = Some b"
      "\<forall>x. suitCount (aiHand s') x \<le> suitCount (aiHand s') b"
    by blast
  from s'(1) aiTurn_exampleAiEight
  have e: "s' = exampleAiEight\<lparr>aiHand := [mkCard Clubs R9, mkCard Spades R9, mkCard Spades R10,
                                      mkCard Diamonds RJ],
            discardPile := [mkCard Hearts R10, mkCard Hearts R7, mkCard Diamonds R8],
            currentSuit := Some Spades, currentTurn := Player\<rparr>"
    by simp
  with s'(2) have "b = Spades" by simp
  with s' e show ?thesis by simp
qed

subsection \<open>The flag for a pending choice of suit\<close>

text \<open>Claim C10. In every session reached from the initial state by deals, plays, draws, choices
  of suit, turns of the AI and forfeits, \<open>pendingSuitChange\<close> is true exactly when the status
  is \<open>suit_selection\<close>. The player's accepted eight that leaves cards in the hand sets the
  flag and the status \<open>suit_selection\<close> together; \<open>handleSuitSelect\<close> clears the flag and sets
  the status \<open>playing\<close> together. No step but the player's eight enters \<open>suit_selection\<close>, no
  step but a choice of suit or a new deal leaves it, and the AI's turn changes neither the flag
  nor whether the status is \<open>suit_selection\<close>.\<close>

theorem pending_iff_suit_selection:
  "(run initialState acts = Inr s \<longrightarrow> pendingSuitChange s = (status s = SuitSelection))
   \<and> (currentTurn t = Player \<and> status t = Playing
        \<and> isValidMove c (topCard t) (currentSuit t) = Inr True \<and> rank c = R8
        \<and> filter (\<lambda>x. card_id x \<noteq> card_id c) (playerHand t) \<noteq> []
      \<longrightarrow> (\<exists>t'. handlePlayCard t c = Inr t' \<and> status t' = SuitSelection
            \<and> pendingSuitChange t'))
   \<and> (status (handleSuitSelect t x) = Playing \<and> \<not> pendingSuitChange (handleSuitSelect t x))
   \<and> (step t a = Inr u \<and> status t \<noteq> SuitSelection \<and> status u = SuitSelection
      \<longrightarrow> (\<exists>c'. a = PlayCard c' \<and> rank c' = R8 \<and> currentTurn t = Player
            \<and> status t = Playing))
   \<and> (step t a = Inr u \<and> status t = SuitSelection \<and> status u \<noteq> SuitSelection
      \<longrightarrow> (\<exists>x'. a = SelectSuit x') \<or> (\<exists>d. a = InitGame d))
   \<and> (aiTurn t = Inr v
      \<longrightarrow> pendingSuitChange v = pendingSuitChange t
        \<and> (status v = SuitSelection) = (status t = SuitSelection))"
proof (intro conjI impI)
  assume "run initialState acts = Inr s"
  then show "pendingSuitChange s = (status s = SuitSelection)"
    by (rule run_flag [of initialState, rotated]) (simp add: initialState_def)
next
  assume "currentTurn t = Player \<and> status t = Playing
        \<and> isValidMove c (topCard t) (currentSuit t) = Inr True \<and> rank c = R8
        \<and> filter (\<lambda>x. card_id x \<noteq> card_id c) (playerHand t) \<noteq> []"
  then show "\<exists>t'. handlePlayCard t c = Inr t' \<and> status t' = SuitSelection
            \<and> pendingSuitChange t'"
    by (simp add: handlePlayCard_accepted)
next
  show "status (handleSuitSelect t x) = Playing" and "\<not> pendingSuitChange (handleSuitSelect t x)"
    by (simp_all add: handleSuitSelect_def)
next
  assume "step t a = Inr u \<and> status t \<noteq> SuitSelection \<and> status u = SuitSelection"
  then show "\<exists>c'. a = PlayCard c' \<and> rank c' = R8 \<and> currentTurn t = Player
            \<and> status t = Playing"
    using step_enters_suit_selection by blast
next
  assume "step t a = Inr u \<and> status t = SuitSelection \<and> status u \<noteq> SuitSelection"
  then show "(\<exists>x'. a = SelectSuit x') \<or> (\<exists>d. a = InitGame d)"
    using step_leaves_suit_selection by blast
next
  assume v: "aiTurn t = Inr v"
  from aiTurn_flag [OF v] show "pendingSuitChange v = pendingSuitChange t"
    and "(status v = SuitSelection) = (status t = SuitSelection)"
    by simp_all
qed

theorem pending_iff_suit_selection_witness:
  "run initialState [InitGame createDeck, PlayCard (mkCard Hearts R8)] = Inr exampleSuitPrompt
   \<and> handlePlayCard exampleDeal (mkCard Hearts R8) = Inr exampleSuitPrompt
   \<and> pendingSuitChange exampleSuitPrompt \<and> status exampleSuitPrompt = SuitSelection
   \<and> \<not> pendingSuitChange exampleDeal \<and> status exampleDeal = Playing
   \<and> run initialState [InitGame createDeck, PlayCard (mkCard Hearts R8), SelectSuit Hearts]
       = Inr exampleSuitChosen
   \<and> handleSuitSelect exampleSuitPrompt Hearts = exampleSuitChosen
   \<and> \<not> pendingSuitChange exampleSuitChosen \<and> status exampleSuitChosen = Playing
   \<and> (\<exists>v. aiTurn exampleSuitChosen = Inr v \<and> \<not> pendingSuitChange v
        \<and> status v \<noteq> SuitSelection)
   \<and> run initialState exampleGame = Inr exampleLastCard
   \<and> \<not> pendingSuitChange exampleLastCard \<and> status exampleLastCard = Playing"
proof -
  note main = pending_iff_suit_selection
  have d: "currentTurn exampleDeal = Player \<and> status exampleDeal = Playing
      \<and> isValidMove (mkCard Hearts R8) (topCard exampleDeal) (currentSuit exampleDeal) = Inr True
      \<and> rank (mkCard Hearts R8) = R8
      \<and> filter (\<lambda>x. card_id x \<noteq> card_id (mkCard Hearts R8)) (playerHand exampleDeal) \<noteq> []"
    by (simp add: exampleDeal_def isValidMove_def mkCard_def createDeck_def SUITS_def RANKS_def)
  from main [where t = exampleDeal and c = "mkCard Hearts R8"] d
  have "\<exists>t'. handlePlayCard exampleDeal (mkCard Hearts R8) = Inr t'
      \<and> status t' = SuitSelection \<and> pendingSuitChange t'"
    by blast
  with play_eight_exampleDeal
  have 1: "pendingSuitChange exampleSuitPrompt \<and> status exampleSuitPrompt = SuitSelection"
    by simp
  from main [where acts = "[InitGame createDeck]" and s = exampleDeal] initGame_createDeck
  have 2: "pendingSuitChange exampleDeal = (status exampleDeal = SuitSelection)" by simp
  from d 2 have 3: "\<not> pendingSuitChange exampleDeal \<and> status exampleDeal = Playing" by simp
  from main [where t = exampleSuitPrompt and x = Hearts] select_exampleSuitPrompt
  have 4: "\<not> pendingSuitChange exampleSuitChosen \<and> status exampleSuitChosen = Playing"
    by simp
  have "discardPile exampleSuitChosen \<noteq> []"
    by (simp add: exampleSuitChosen_def exampleSuitPrompt_def)
  from aiTurn_total [OF this] obtain v where v: "aiTurn exampleSuitChosen = Inr v" by blast
  from main [where t = exampleSuitChosen and v = v] v 4
  have 5: "\<not> pendingSuitChange v \<and> status v \<noteq> SuitSelection" by simp
  have 6: "status exampleLastCard = Playing" by (simp add: exampleLastCard_def)
  from main [where acts = exampleGame and s = exampleLastCard] exampleGame_run 6
  have 7: "\<not> pendingSuitChange exampleLastCard" by simp
  from 1 3 4 5 6 7 v run_to_suit_prompt play_eight_exampleDeal run_to_suit_chosen
    select_exampleSuitPrompt exampleGame_run
  show ?thesis by blast
qed

end
